theory Spec2Isabelle
  imports Complex_Main "HOL-Library.AList"
begin

section \<open>The polaroid booth compositor\<close>

text \<open>
  A shallow embedding of the canvas compositing code of the photo booth page
  (class \<^verbatim>\<open>CanvasDrawer\<close>) and of the capture list of class \<^verbatim>\<open>PolaroidMaker\<close>.
  The repository holds two revisions of both classes: the later one
  (\<^verbatim>\<open>src/unnamed/part_000\<close>, with the collage layout) carries the plain names below,
  the functions of the earlier one (\<^verbatim>\<open>src/app.js\<close>) carry the suffix \<open>_app\<close>.

  JavaScript numbers are doubles; the model carries the real number a double denotes.
  The sizes, offsets and counts of the layout code are small integers, on which the
  arithmetic of doubles is exact, and the quotient \<open>w_small / POLAROID_WIDTH\<close> handed to
  \<^verbatim>\<open>scale\<close> is kept as the exact quotient. The cover-fit routine divides and multiplies
  by the sides of the photo: there every operation is rounded to the nearest double
  (\<open>rnd\<close> below). Loop counters and list lengths are naturals.
\<close>

subsection \<open>Constants\<close>

text \<open>The object \<^verbatim>\<open>CanvasDrawer.CONSTANTS\<close>.\<close>

definition FONT_SIZE :: real where
  "FONT_SIZE = 90"

definition PADDING :: real where
  "PADDING = 60"

definition TEXT_AREA_HEIGHT :: real where
  "TEXT_AREA_HEIGHT = 220"

definition IMG_SIZE :: real where
  "IMG_SIZE = 1000"

definition POLAROID_WIDTH :: real where
  "POLAROID_WIDTH = 1000 + 60 * 2"

definition POLAROID_HEIGHT :: real where
  "POLAROID_HEIGHT = IMG_SIZE + PADDING + TEXT_AREA_HEIGHT"

definition GRID_GAP :: real where
  "GRID_GAP = 100"

subsection \<open>Images, the style catalog and the request\<close>

text \<open>
  A decoded \<^verbatim>\<open>Image\<close> element: its source and its natural size. A list element of
  type \<open>image option\<close> is an image or JavaScript's \<^verbatim>\<open>undefined\<close>.
\<close>

record image =
  img_src :: string
  img_width :: real
  img_height :: real

text \<open>An entry of \<^verbatim>\<open>config.decorations\<close> and one of \<^verbatim>\<open>config.filters\<close>.\<close>

record decoration =
  d_name :: string
  d_url :: string
  d_w :: real
  d_h :: real
  d_x :: real
  d_y :: real

record filter_entry =
  f_name :: string
  f_value :: string

record config =
  cfg_filters :: "string \<rightharpoonup> filter_entry"
  cfg_decorations :: "string \<rightharpoonup> decoration"

text \<open>
  The argument of \<^verbatim>\<open>createDownloadableCanvas\<close>. The active decorations are a
  \<^verbatim>\<open>Set\<close>, which iterates in insertion order: a list of ids.
\<close>

record options =
  o_layout :: string
  o_images :: "string list"
  o_text :: string
  o_filter :: string
  o_font :: string
  o_decorations :: "string list"

text \<open>
  The errors the code raises: \<^verbatim>\<open>new Error("No images to draw.")\<close> and the
  \<^verbatim>\<open>TypeError\<close> of a property read on \<^verbatim>\<open>undefined\<close>.
\<close>

datatype error = NoImagesError | TypeError

subsection \<open>The capture list of PolaroidMaker\<close>

record state =
  st_layout :: string
  st_capturedImages :: "string list"

text \<open>\<^verbatim>\<open>_getMaxImagesForLayout\<close>, later revision.\<close>

definition getMaxImagesForLayout :: "string \<Rightarrow> nat" where
  "getMaxImagesForLayout l =
     (if l = ''single'' then 1
      else if l = ''grid-2x2'' then 4
      else if l = ''grid-strip'' then 4
      else if l = ''collage'' then 3
      else 1)"

text \<open>\<^verbatim>\<open>Array.prototype.shift\<close>: drops the first element, does nothing on an empty array.\<close>

definition shift :: "'a list \<Rightarrow> 'a list" where
  "shift xs = tl xs"

text \<open>
  \<^verbatim>\<open>addCapturedImage\<close>, later revision: one conditional \<^verbatim>\<open>shift\<close>, then the push.
  The calls of \<^verbatim>\<open>renderPolaroid\<close> and \<^verbatim>\<open>_updateUI\<close> write to the page only.
\<close>

definition addCapturedImage :: "string \<Rightarrow> state \<Rightarrow> state" where
  "addCapturedImage imageData st =
     (let maxImages = getMaxImagesForLayout (st_layout st);
          st1 = (if length (st_capturedImages st) \<ge> maxImages
                 then st\<lparr>st_capturedImages := shift (st_capturedImages st)\<rparr> else st)
      in st1\<lparr>st_capturedImages := st_capturedImages st1 @ [imageData]\<rparr>)"

text \<open>The click handler of the layout options: \<^verbatim>\<open>this.state.layout = el.dataset.layout\<close>.\<close>

definition selectLayout :: "string \<Rightarrow> state \<Rightarrow> state" where
  "selectLayout l st = st\<lparr>st_layout := l\<rparr>"

text \<open>The earlier revision: the push first, then a loop that shifts while the list is too long.\<close>

definition getMaxImagesForLayout_app :: "string \<Rightarrow> nat" where
  "getMaxImagesForLayout_app l = (if l = ''single'' then 1 else 4)"

function shiftWhileLonger :: "nat \<Rightarrow> 'a list \<Rightarrow> 'a list" where
  "shiftWhileLonger maxImages xs =
     (if length xs > maxImages then shiftWhileLonger maxImages (shift xs) else xs)"
  by pat_completeness auto
termination
  by (relation "measure (\<lambda>(m, xs). length xs)") (auto simp: shift_def)

definition addCapturedImage_app :: "string \<Rightarrow> state \<Rightarrow> state" where
  "addCapturedImage_app imageData st =
     (let maxImages = getMaxImagesForLayout_app (st_layout st);
          st1 = st\<lparr>st_capturedImages := st_capturedImages st @ [imageData]\<rparr>
      in st1\<lparr>st_capturedImages := shiftWhileLonger maxImages (st_capturedImages st1)\<rparr>)"

subsection \<open>The drawing surface\<close>

text \<open>
  The 2D context keeps a transform, a clip region and a filter, and a stack of saved
  states. The code only translates and scales, so a transform is the pair of scale
  factors and the pair of offsets: the point \<open>(x, y)\<close> lands at
  \<open>(m_sx * x + m_tx, m_sy * y + m_ty)\<close>. The clip is the list of rectangles clipped to so
  far, each with the transform it was set under. Shadow, fill style, font and text
  alignment are paint attributes that no statement below depends on; they are not kept.
\<close>

record matrix =
  m_sx :: real
  m_sy :: real
  m_tx :: real
  m_ty :: real

type_synonym rect = "real \<times> real \<times> real \<times> real"

record gstate =
  g_transform :: matrix
  g_clip :: "(matrix \<times> rect) list"
  g_filter :: string

text \<open>
  What reaches the pixels: \<^verbatim>\<open>clearRect\<close>, \<^verbatim>\<open>fillRect\<close>, \<^verbatim>\<open>drawImage\<close> in its
  five-argument form (image and target rectangle, used for decorations) and in its
  nine-argument form (image, source rectangle, target rectangle, used for the photo),
  and \<^verbatim>\<open>fillText\<close> (text, font family, anchor).
\<close>

datatype prim =
    ClearRect real real real real
  | FillRect real real real real
  | DrawImage5 image real real real real
  | DrawImage9 image real real real real real real real real
  | FillText string string real real

text \<open>
  The canvas: its size, the context state, the saved states and the drawing calls made
  since the surface was last reset, each with the context state it was made under.
\<close>

record canvas =
  cv_width :: real
  cv_height :: real
  cv_state :: gstate
  cv_stack :: "gstate list"
  cv_ops :: "(gstate \<times> prim) list"

definition identity :: matrix where
  "identity = \<lparr>m_sx = 1, m_sy = 1, m_tx = 0, m_ty = 0\<rparr>"

definition defaultState :: gstate where
  "defaultState = \<lparr>g_transform = identity, g_clip = [], g_filter = ''none''\<rparr>"

text \<open>
  Assigning \<^verbatim>\<open>canvas.width\<close> or \<^verbatim>\<open>canvas.height\<close> clears the bitmap and resets the
  context to its default state, saved states included.
\<close>

definition setWidth :: "real \<Rightarrow> canvas \<Rightarrow> canvas" where
  "setWidth w cv =
     \<lparr>cv_width = w, cv_height = cv_height cv, cv_state = defaultState, cv_stack = [], cv_ops = []\<rparr>"

definition setHeight :: "real \<Rightarrow> canvas \<Rightarrow> canvas" where
  "setHeight h cv =
     \<lparr>cv_width = cv_width cv, cv_height = h, cv_state = defaultState, cv_stack = [], cv_ops = []\<rparr>"

definition save :: "canvas \<Rightarrow> canvas" where
  "save cv = cv\<lparr>cv_stack := cv_state cv # cv_stack cv\<rparr>"

definition restore :: "canvas \<Rightarrow> canvas" where
  "restore cv =
     (case cv_stack cv of [] \<Rightarrow> cv | s # ss \<Rightarrow> cv\<lparr>cv_state := s, cv_stack := ss\<rparr>)"

definition translate :: "real \<Rightarrow> real \<Rightarrow> canvas \<Rightarrow> canvas" where
  "translate x y cv =
     (let m = g_transform (cv_state cv)
      in cv\<lparr>cv_state := (cv_state cv)\<lparr>g_transform :=
            m\<lparr>m_tx := m_tx m + m_sx m * x, m_ty := m_ty m + m_sy m * y\<rparr>\<rparr>\<rparr>)"

definition scale :: "real \<Rightarrow> real \<Rightarrow> canvas \<Rightarrow> canvas" where
  "scale a b cv =
     (let m = g_transform (cv_state cv)
      in cv\<lparr>cv_state := (cv_state cv)\<lparr>g_transform :=
            m\<lparr>m_sx := m_sx m * a, m_sy := m_sy m * b\<rparr>\<rparr>\<rparr>)"

text \<open>\<^verbatim>\<open>beginPath(); rect(x, y, w, h); clip()\<close>.\<close>

definition clip :: "rect \<Rightarrow> canvas \<Rightarrow> canvas" where
  "clip r cv =
     cv\<lparr>cv_state := (cv_state cv)\<lparr>g_clip := (g_transform (cv_state cv), r) # g_clip (cv_state cv)\<rparr>\<rparr>"

definition setFilter :: "string \<Rightarrow> canvas \<Rightarrow> canvas" where
  "setFilter f cv = cv\<lparr>cv_state := (cv_state cv)\<lparr>g_filter := f\<rparr>\<rparr>"

definition emit :: "prim \<Rightarrow> canvas \<Rightarrow> canvas" where
  "emit p cv = cv\<lparr>cv_ops := cv_ops cv @ [(cv_state cv, p)]\<rparr>"

subsection \<open>Statements that may throw\<close>

text \<open>
  A statement takes the canvas and returns the canvas it leaves behind together with
  \<open>Inr ()\<close>, or with \<open>Inl e\<close> when it threw \<open>e\<close>. A block runs its statements in order
  and stops at the first throw; a \<^verbatim>\<open>for\<close> loop over \<open>i = a, ..., b - 1\<close> is the block
  of its bodies.
\<close>

type_synonym stmt = "canvas \<Rightarrow> (error + unit) \<times> canvas"

definition ok :: "(canvas \<Rightarrow> canvas) \<Rightarrow> stmt" where
  "ok f cv = (Inr (), f cv)"

definition skip :: stmt where
  "skip cv = (Inr (), cv)"

definition throw :: "error \<Rightarrow> stmt" where
  "throw e cv = (Inl e, cv)"

fun block :: "stmt list \<Rightarrow> stmt" where
  "block [] cv = (Inr (), cv)"
| "block (s # ss) cv =
     (case s cv of (Inl e, cv') \<Rightarrow> (Inl e, cv') | (Inr u, cv') \<Rightarrow> block ss cv')"

subsection \<open>Double arithmetic\<close>

text \<open>
  Rounding to the nearest double, ties to even. A double has a significand of 53 bits:
  a positive real \<open>x\<close> with \<open>2 powi e \<le> x < 2 powi (e + 1)\<close> is rounded to the
  nearest multiple of \<open>2 powi (e - 52)\<close>, and to the multiple with an even factor when
  it lies half way between two. The exponent is not limited here, so \<open>rnd\<close> is the
  rounding of binary64 wherever the exact result is zero or of size between
  \<open>2 powi (-1022)\<close> and \<open>2 powi 1024\<close>; a sum or difference of two doubles that falls
  below this range is exact in binary64 and under \<open>rnd\<close> alike.
\<close>

definition roundEven :: "real \<Rightarrow> int" where
  "roundEven y =
     (let f = \<lfloor>y\<rfloor>; d = y - of_int f
      in if d < 1 / 2 then f
         else if 1 / 2 < d then f + 1
         else if even f then f else f + 1)"

text \<open>The exponent of a positive real: \<open>2 powi expo x \<le> x < 2 powi (expo x + 1)\<close>.\<close>

function expo :: "real \<Rightarrow> int" where
  "expo x =
     (if x \<le> 0 then 0
      else if 2 \<le> x then expo (x / 2) + 1
      else if x < 1 then expo (2 * x) - 1
      else 0)"
  by pat_completeness auto
termination
proof (relation "measure (\<lambda>x. if 2 \<le> x then nat \<lfloor>x\<rfloor>
                                 else if 0 < x \<and> x < 1 then nat \<lfloor>1 / x\<rfloor> else 0)")
  show "wf (measure (\<lambda>x::real. if 2 \<le> x then nat \<lfloor>x\<rfloor>
                                 else if 0 < x \<and> x < 1 then nat \<lfloor>1 / x\<rfloor> else 0))"
    by simp
next
  fix x :: real
  assume "\<not> x \<le> 0" and x: "2 \<le> x"
  have "\<lfloor>x / 2\<rfloor> < \<lfloor>x\<rfloor>"
  proof -
    have "x / 2 \<le> x - 1" using x by simp
    then have "\<lfloor>x / 2\<rfloor> \<le> \<lfloor>x - 1\<rfloor>" by (rule floor_mono)
    then show ?thesis by simp
  qed
  moreover have "0 < \<lfloor>x\<rfloor>" using x by simp
  ultimately show "(x / 2, x) \<in> measure (\<lambda>x. if 2 \<le> x then nat \<lfloor>x\<rfloor>
                                 else if 0 < x \<and> x < 1 then nat \<lfloor>1 / x\<rfloor> else 0)"
    using x by (auto simp: in_measure)
next
  fix x :: real
  assume pos: "\<not> x \<le> 0" and "\<not> 2 \<le> x" and x: "x < 1"
  have inv: "1 < 1 / x" using pos x by simp
  have "\<lfloor>1 / (2 * x)\<rfloor> < \<lfloor>1 / x\<rfloor>"
  proof (cases "2 \<le> 1 / x")
    case True
    have "1 / (2 * x) = (1 / x) / 2" by simp
    moreover have "(1 / x) / 2 \<le> 1 / x - 1" using True by simp
    ultimately have "\<lfloor>1 / (2 * x)\<rfloor> \<le> \<lfloor>1 / x - 1\<rfloor>" by (simp only: floor_mono)
    then show ?thesis by simp
  next
    case False
    have "1 / (2 * x) = (1 / x) / 2" by simp
    with False have "1 / (2 * x) < 1" by simp
    moreover have "0 \<le> 1 / (2 * x)" using pos by simp
    ultimately have "\<lfloor>1 / (2 * x)\<rfloor> = 0" by (simp add: floor_eq_iff)
    moreover have "1 \<le> \<lfloor>1 / x\<rfloor>" using inv by (simp add: le_floor_iff)
    ultimately show ?thesis by simp
  qed
  moreover have "0 < \<lfloor>1 / x\<rfloor>" using inv by (simp add: less_floor_iff) 
  ultimately show "(2 * x, x) \<in> measure (\<lambda>x. if 2 \<le> x then nat \<lfloor>x\<rfloor>
                                 else if 0 < x \<and> x < 1 then nat \<lfloor>1 / x\<rfloor> else 0)"
    using pos x by (auto simp: in_measure)
qed

definition rnd :: "real \<Rightarrow> real" where
  "rnd x =
     (if x = 0 then 0
      else (let e = expo \<bar>x\<bar>; q = 2 powi (e - 52)
            in sgn x * (of_int (roundEven (\<bar>x\<bar> / q)) * q)))"

text \<open>
  The sizes between \<open>2 powi (-200)\<close> and \<open>2 ^ 200\<close>. With the sides of the photo and
  of the target in this range, and an origin of size at most \<open>2 ^ 200\<close>, no operation
  of the cover-fit routine overflows or underflows: the quotients and products lie
  between \<open>2 powi (-401)\<close> and \<open>2 ^ 601\<close>, and a difference of two doubles of size at
  least \<open>2 powi (-201)\<close> is zero or of size at least \<open>2 powi (-253)\<close>. The sides of a
  decoded photo are integers from 1 to \<open>2 ^ 32 - 1\<close>, the window of a frame is 1000 by
  1000 at (60, 60).
\<close>

definition moderate :: "real \<Rightarrow> bool" where
  "moderate x = (1 / 2 ^ 200 \<le> x \<and> x \<le> 2 ^ 200)"

subsection \<open>Cover fit\<close>

text \<open>
  \<^verbatim>\<open>_drawImageWithAspectRatio\<close>. Reading \<^verbatim>\<open>img.width\<close> of \<^verbatim>\<open>undefined\<close> throws.
  The two quotients, the two products, the two differences, their halves and the two
  sums are each rounded.
\<close>

definition drawImageWithAspectRatio ::
  "image option \<Rightarrow> real \<Rightarrow> real \<Rightarrow> real \<Rightarrow> real \<Rightarrow> stmt" where
  "drawImageWithAspectRatio img dx dy dWidth dHeight =
     (case img of
        None \<Rightarrow> throw TypeError
      | Some im \<Rightarrow>
          (let hRatio = rnd (dWidth / img_width im);
               vRatio = rnd (dHeight / img_height im);
               ratio = max hRatio vRatio;
               centerShiftX = rnd (rnd (dWidth - rnd (img_width im * ratio)) / 2);
               centerShiftY = rnd (rnd (dHeight - rnd (img_height im * ratio)) / 2)
           in ok (emit (DrawImage9 im 0 0 (img_width im) (img_height im)
                    (rnd (dx + centerShiftX)) (rnd (dy + centerShiftY))
                    (rnd (img_width im * ratio)) (rnd (img_height im * ratio))))))"

subsection \<open>Loading the assets\<close>

text \<open>
  The Image Source Provider is the parameter \<open>decode\<close>: \<open>decode src\<close> is the decoded
  image when \<^verbatim>\<open>img.decode()\<close> resolves for the source \<open>src\<close>, and \<open>None\<close> when it
  rejects.

  The decoration promises of \<^verbatim>\<open>_loadAssets\<close>. Reading \<^verbatim>\<open>config.decorations[id].url\<close>
  for an id the catalog lacks throws at once. A rejected decode is caught by
  \<^verbatim>\<open>.catch(e => console.error(...))\<close>, whose promise resolves to \<^verbatim>\<open>undefined\<close>.
\<close>

fun decoPromises ::
  "(string \<Rightarrow> image option) \<Rightarrow> config \<Rightarrow> string list \<Rightarrow> error + (string \<times> image) option list" where
  "decoPromises decode cfg [] = Inr []"
| "decoPromises decode cfg (did # ids) =
     (case cfg_decorations cfg did of
        None \<Rightarrow> Inl TypeError
      | Some d \<Rightarrow>
          (case decoPromises decode cfg ids of
             Inl e \<Rightarrow> Inl e
           | Inr ps \<Rightarrow> Inr (map_option (\<lambda>img. (did, img)) (decode (d_url d)) # ps)))"

text \<open>
  \<^verbatim>\<open>loadedDecos.map(d => [d.id, d.img])\<close>: reading \<^verbatim>\<open>d.id\<close> of \<^verbatim>\<open>undefined\<close> throws.
\<close>

fun entries :: "(string \<times> image) option list \<Rightarrow> error + (string \<times> image) list" where
  "entries [] = Inr []"
| "entries (None # ds) = Inl TypeError"
| "entries (Some d # ds) = (case entries ds of Inl e \<Rightarrow> Inl e | Inr es \<Rightarrow> Inr (d # es))"

text \<open>
  \<^verbatim>\<open>new Map(entries)\<close>: a map that iterates in insertion order; setting a key that is
  present keeps its place.
\<close>

definition newMap :: "(string \<times> image) list \<Rightarrow> (string \<times> image) list" where
  "newMap es = fold (\<lambda>(k, v) m. AList.update k v m) es []"

text \<open>
  \<^verbatim>\<open>_loadAssets\<close>, later revision. A main image whose decode rejects is caught in the
  same way and becomes \<^verbatim>\<open>undefined\<close>. The two calls \<^verbatim>\<open>.filter(p => p)\<close> test the
  promise objects, which are all truthy, before they are awaited: they keep every
  element.
\<close>

definition loadAssets ::
  "(string \<Rightarrow> image option) \<Rightarrow> config \<Rightarrow> string list \<Rightarrow> string list
     \<Rightarrow> error + (image option list \<times> (string \<times> image) list)" where
  "loadAssets decode cfg imageSources activeDecorations =
     (let imagePromises = map decode imageSources
      in case decoPromises decode cfg activeDecorations of
           Inl e \<Rightarrow> Inl e
         | Inr decoPs \<Rightarrow>
             (let loadedImages = filter (\<lambda>p. True) imagePromises;
                  loadedDecos = filter (\<lambda>p. True) decoPs
              in case entries loadedDecos of
                   Inl e \<Rightarrow> Inl e
                 | Inr es \<Rightarrow> Inr (loadedImages, newMap es)))"

subsection \<open>One frame\<close>

text \<open>The body of the decoration loop of \<^verbatim>\<open>_drawSinglePolaroid\<close>.\<close>

definition drawDecoration :: "config \<Rightarrow> string \<times> image \<Rightarrow> stmt" where
  "drawDecoration cfg e =
     (case cfg_decorations cfg (fst e) of
        None \<Rightarrow> throw TypeError
      | Some d \<Rightarrow> ok (emit (DrawImage5 (snd e) (d_x d) (d_y d) (d_w d) (d_h d))))"

text \<open>
  \<^verbatim>\<open>_drawSinglePolaroid\<close>: the background, the clipped and filtered photo, the
  decorations, and the caption when it is a non-empty string.
\<close>

definition drawSinglePolaroid ::
  "config \<Rightarrow> image option \<Rightarrow> string \<Rightarrow> (string \<times> image) list \<Rightarrow> string \<Rightarrow> string \<Rightarrow> stmt" where
  "drawSinglePolaroid cfg img text decoMap filterValue font =
     block
      [ok (emit (FillRect 0 0 POLAROID_WIDTH POLAROID_HEIGHT)),
       ok save,
       ok (clip (PADDING, PADDING, IMG_SIZE, IMG_SIZE)),
       ok (setFilter filterValue),
       drawImageWithAspectRatio img PADDING PADDING IMG_SIZE IMG_SIZE,
       ok (setFilter ''none''),
       ok restore,
       block (map (drawDecoration cfg) decoMap),
       (if text \<noteq> []
        then ok (emit (FillText text font (POLAROID_WIDTH / 2)
                        (PADDING + IMG_SIZE + (TEXT_AREA_HEIGHT / 2))))
        else skip)]"

subsection \<open>The composition\<close>

text \<open>\<^verbatim>\<open>xs[i]\<close> of an array of images: \<^verbatim>\<open>undefined\<close> beyond the end.\<close>

definition nth_opt :: "'a option list \<Rightarrow> nat \<Rightarrow> 'a option" where
  "nth_opt xs i = (if i < length xs then xs ! i else None)"

text \<open>The locals of the collage branch.\<close>

definition w_large :: real where
  "w_large = POLAROID_WIDTH"

definition h_large :: real where
  "h_large = POLAROID_HEIGHT"

definition w_small :: real where
  "w_small = (POLAROID_WIDTH - GRID_GAP) / 2"

definition h_small :: real where
  "h_small = POLAROID_HEIGHT"

text \<open>The large frame of the collage: skipped when \<^verbatim>\<open>loadedImages[0]\<close> is falsy.\<close>

definition collageLarge ::
  "config \<Rightarrow> image option list \<Rightarrow> (string \<times> image) list \<Rightarrow> string \<Rightarrow> string \<Rightarrow> stmt" where
  "collageLarge cfg loadedImages decoMap filterValue font =
     (case nth_opt loadedImages 0 of
        None \<Rightarrow> skip
      | Some im \<Rightarrow>
          block [ok save,
                 drawSinglePolaroid cfg (Some im) [] decoMap filterValue font,
                 ok restore])"

text \<open>The body of the loop over the small frames, \<open>i = 1, 2\<close>.\<close>

definition collageSmall ::
  "config \<Rightarrow> image option list \<Rightarrow> string \<Rightarrow> string \<Rightarrow> string \<Rightarrow> nat \<Rightarrow> stmt" where
  "collageSmall cfg loadedImages text filterValue font i =
     (case nth_opt loadedImages i of
        None \<Rightarrow> skip
      | Some im \<Rightarrow>
          (let x = (real i - 1) * (w_small + GRID_GAP);
               y = h_large + GRID_GAP
           in block [ok save,
                     ok (translate x y),
                     ok (scale (w_small / POLAROID_WIDTH) (h_small / POLAROID_HEIGHT)),
                     drawSinglePolaroid cfg (Some im)
                       (if int i = int (length loadedImages) - 1 then text else [])
                       [] filterValue font,
                     ok restore]))"

text \<open>The columns and rows of the other branch.\<close>

definition gridCols :: "string \<Rightarrow> nat" where
  "gridCols layout = (if layout = ''grid-2x2'' then 2 else 1)"

definition gridRows :: "string \<Rightarrow> nat" where
  "gridRows layout =
     (if layout = ''grid-2x2'' then 2
      else if layout = ''grid-strip'' \<or> layout = ''grid-4x1'' then 4
      else 1)"

text \<open>The body of the loop over all loaded images.\<close>

definition gridCell ::
  "config \<Rightarrow> string \<Rightarrow> image option list \<Rightarrow> string \<Rightarrow> (string \<times> image) list
     \<Rightarrow> string \<Rightarrow> string \<Rightarrow> nat \<Rightarrow> stmt" where
  "gridCell cfg layout loadedImages text decoMap filterValue font i =
     (let isLastImage = (int i = int (length loadedImages) - 1);
          currentText = (if isLastImage then text else []);
          currentDecos = (if layout = ''single'' \<or> i = 0 then decoMap else []);
          row = i div gridCols layout;
          col = i mod gridCols layout;
          x = real col * (POLAROID_WIDTH + GRID_GAP);
          y = real row * (POLAROID_HEIGHT + GRID_GAP)
      in block [ok save,
                ok (translate x y),
                drawSinglePolaroid cfg (nth_opt loadedImages i) currentText currentDecos
                  filterValue font,
                ok restore])"

text \<open>\<^verbatim>\<open>clearRect(0, 0, canvas.width, canvas.height)\<close>.\<close>

definition clearAll :: stmt where
  "clearAll cv = ok (emit (ClearRect 0 0 (cv_width cv) (cv_height cv))) cv"

text \<open>
  \<^verbatim>\<open>createDownloadableCanvas\<close>, later revision. The result \<open>Inr ()\<close> stands for
  \<^verbatim>\<open>return this.canvas\<close>: the surface returned is the canvas of the result.
\<close>

definition createDownloadableCanvas ::
  "(string \<Rightarrow> image option) \<Rightarrow> config \<Rightarrow> options \<Rightarrow> stmt" where
  "createDownloadableCanvas decode cfg opts =
     (case loadAssets decode cfg (o_images opts) (o_decorations opts) of
        Inl e \<Rightarrow> throw e
      | Inr (loadedImages, decoMap) \<Rightarrow>
          if length loadedImages = 0 then throw NoImagesError
          else
            (case cfg_filters cfg (o_filter opts) of
               None \<Rightarrow> throw TypeError
             | Some fe \<Rightarrow>
                 (let layout = o_layout opts;
                      text = o_text opts;
                      font = o_font opts;
                      filterValue = f_value fe
                  in block
                      [clearAll,
                       (if layout = ''collage'' then
                          block
                           [ok (setWidth w_large),
                            ok (setHeight (h_large + h_small + GRID_GAP)),
                            collageLarge cfg loadedImages decoMap filterValue font,
                            block (map (collageSmall cfg loadedImages text filterValue font)
                                     [1..<3])]
                        else
                          (let cols = gridCols layout; rows = gridRows layout
                           in block
                               [ok (setWidth (real cols * POLAROID_WIDTH
                                               + (real cols - 1) * GRID_GAP)),
                                ok (setHeight (real rows * POLAROID_HEIGHT
                                                + (real rows - 1) * GRID_GAP)),
                                block (map (gridCell cfg layout loadedImages text decoMap
                                              filterValue font)
                                         [0..<length loadedImages])]))])))"

subsection \<open>The catalog of the page\<close>

text \<open>The decorations and filters of \<^verbatim>\<open>_initConfig\<close>, later revision.\<close>

definition initConfig :: config where
  "initConfig =
     \<lparr>cfg_filters = map_of
        [(''none'', \<lparr>f_name = ''None'', f_value = ''none''\<rparr>),
         (''vintage'', \<lparr>f_name = ''Vintage'',
            f_value = ''sepia(0.35) contrast(1.1) brightness(1.05) saturate(1.2)''\<rparr>),
         (''mono'', \<lparr>f_name = ''Mono'', f_value = ''grayscale(1)''\<rparr>),
         (''retro'', \<lparr>f_name = ''Retro'',
            f_value = ''sepia(0.6) contrast(0.9) brightness(1.1)''\<rparr>),
         (''gloomy'', \<lparr>f_name = ''Gloomy'',
            f_value = ''contrast(1.2) brightness(0.9) saturate(0.8)''\<rparr>),
         (''mellow'', \<lparr>f_name = ''Mellow'',
            f_value = ''brightness(1.1) contrast(0.95) saturate(0.9)''\<rparr>),
         (''dreamy'', \<lparr>f_name = ''Dreamy'',
            f_value = ''saturate(1.4) contrast(0.9) brightness(1.1) blur(0.5px)''\<rparr>),
         (''lomo'', \<lparr>f_name = ''Lomo'', f_value = ''saturate(1.5) contrast(1.2)''\<rparr>),
         (''golden'', \<lparr>f_name = ''Golden'',
            f_value = ''sepia(0.2) saturate(1.4) contrast(0.9) brightness(1.1) hue-rotate(-10deg)''\<rparr>),
         (''cyber'', \<lparr>f_name = ''Cyber'',
            f_value = ''saturate(1.5) contrast(1.2) hue-rotate(180deg) sepia(0.3) brightness(0.9)''\<rparr>),
         (''cam90'', \<lparr>f_name = ''90s Cam'',
            f_value = ''sepia(0.4) contrast(1.1) brightness(1.1) saturate(1.3)''\<rparr>)],
      cfg_decorations = map_of
        [(''ribbon-decoration'', \<lparr>d_name = ''Ribbon'', d_url = ''assets/ribbon.png'',
            d_w = 200, d_h = 100, d_x = 0, d_y = 0\<rparr>),
         (''heart-decoration'', \<lparr>d_name = ''Heart'', d_url = ''assets/heart.png'',
            d_w = 150, d_h = 150, d_x = 870, d_y = 0\<rparr>),
         (''sparkle-decoration'', \<lparr>d_name = ''Sparkle'', d_url = ''assets/sparkle.svg'',
            d_w = 100, d_h = 100, d_x = 880, d_y = 30\<rparr>),
         (''doodle-arrow-decoration'', \<lparr>d_name = ''Arrow'', d_url = ''assets/doodle-arrow.svg'',
            d_w = 200, d_h = 200, d_x = 400, d_y = 400\<rparr>)]\<rparr>"

text \<open>A fresh canvas element: 300 by 150, nothing drawn.\<close>

definition newCanvas :: canvas where
  "newCanvas =
     \<lparr>cv_width = 300, cv_height = 150, cv_state = defaultState, cv_stack = [], cv_ops = []\<rparr>"

subsection \<open>Reading a surface\<close>

text \<open>
  What a surface shows, read off its drawing calls. Every frame starts with the fill of
  its background, holds one photo (the nine-argument \<^verbatim>\<open>drawImage\<close>), its decorations
  (the five-argument \<^verbatim>\<open>drawImage\<close>) and at most one caption (\<^verbatim>\<open>fillText\<close>). A call
  belongs to the frame whose transform it was made under.
\<close>

fun frameOf :: "gstate \<times> prim \<Rightarrow> matrix list" where
  "frameOf (s, FillRect x y w h) = [g_transform s]"
| "frameOf (s, p) = []"

fun photoOf :: "gstate \<times> prim \<Rightarrow> (matrix \<times> image) list" where
  "photoOf (s, DrawImage9 im sx sy sw sh dx dy dw dh) = [(g_transform s, im)]"
| "photoOf (s, p) = []"

fun decorationOf :: "gstate \<times> prim \<Rightarrow> (matrix \<times> image) list" where
  "decorationOf (s, DrawImage5 im x y w h) = [(g_transform s, im)]"
| "decorationOf (s, p) = []"

fun captionOf :: "gstate \<times> prim \<Rightarrow> (matrix \<times> string) list" where
  "captionOf (s, FillText t f x y) = [(g_transform s, t)]"
| "captionOf (s, p) = []"

definition frames :: "canvas \<Rightarrow> matrix list" where
  "frames cv = concat (map frameOf (cv_ops cv))"

definition photos :: "canvas \<Rightarrow> (matrix \<times> image) list" where
  "photos cv = concat (map photoOf (cv_ops cv))"

definition decorated :: "canvas \<Rightarrow> (matrix \<times> image) list" where
  "decorated cv = concat (map decorationOf (cv_ops cv))"

definition captions :: "canvas \<Rightarrow> (matrix \<times> string) list" where
  "captions cv = concat (map captionOf (cv_ops cv))"

text \<open>The transform of frame \<open>i\<close> of a grid with \<open>cols\<close> columns, and of the small frames of the collage.\<close>

definition gridTransform :: "nat \<Rightarrow> nat \<Rightarrow> matrix" where
  "gridTransform cols i =
     \<lparr>m_sx = 1, m_sy = 1,
      m_tx = real (i mod cols) * (POLAROID_WIDTH + GRID_GAP),
      m_ty = real (i div cols) * (POLAROID_HEIGHT + GRID_GAP)\<rparr>"

definition smallTransform :: "nat \<Rightarrow> matrix" where
  "smallTransform i =
     \<lparr>m_sx = w_small / POLAROID_WIDTH, m_sy = h_small / POLAROID_HEIGHT,
      m_tx = (real i - 1) * (w_small + GRID_GAP),
      m_ty = h_large + GRID_GAP\<rparr>"

text \<open>
  The drawing calls of one frame with photo \<open>im\<close>, made in context state \<open>s\<close>.
\<close>

definition coverPrim :: "image \<Rightarrow> real \<Rightarrow> real \<Rightarrow> real \<Rightarrow> real \<Rightarrow> prim" where
  "coverPrim im dx dy W H =
     (let r = max (rnd (W / img_width im)) (rnd (H / img_height im))
      in DrawImage9 im 0 0 (img_width im) (img_height im)
           (rnd (dx + rnd (rnd (W - rnd (img_width im * r)) / 2)))
           (rnd (dy + rnd (rnd (H - rnd (img_height im * r)) / 2)))
           (rnd (img_width im * r)) (rnd (img_height im * r)))"

definition decoPrims :: "config \<Rightarrow> string \<times> image \<Rightarrow> prim list" where
  "decoPrims cfg e =
     (case cfg_decorations cfg (fst e) of
        None \<Rightarrow> []
      | Some d \<Rightarrow> [DrawImage5 (snd e) (d_x d) (d_y d) (d_w d) (d_h d)])"

definition frameOps ::
  "gstate \<Rightarrow> config \<Rightarrow> image \<Rightarrow> string \<Rightarrow> (string \<times> image) list \<Rightarrow> string \<Rightarrow> string
     \<Rightarrow> (gstate \<times> prim) list" where
  "frameOps s cfg im text decoMap filterValue font =
     [(s, FillRect 0 0 POLAROID_WIDTH POLAROID_HEIGHT),
      (s\<lparr>g_clip := (g_transform s, (PADDING, PADDING, IMG_SIZE, IMG_SIZE)) # g_clip s,
          g_filter := filterValue\<rparr>,
       coverPrim im PADDING PADDING IMG_SIZE IMG_SIZE)]
     @ map (Pair s) (concat (map (decoPrims cfg) decoMap))
     @ (if text \<noteq> []
        then [(s, FillText text font (POLAROID_WIDTH / 2)
                    (PADDING + IMG_SIZE + (TEXT_AREA_HEIGHT / 2)))]
        else [])"

text \<open>The drawing calls of frame \<open>i\<close> of a grid and of frame \<open>i\<close> of the collage.\<close>

definition gridFrame ::
  "config \<Rightarrow> string \<Rightarrow> image option list \<Rightarrow> string \<Rightarrow> (string \<times> image) list
     \<Rightarrow> string \<Rightarrow> string \<Rightarrow> nat \<Rightarrow> (gstate \<times> prim) list" where
  "gridFrame cfg layout loadedImages text decoMap filterValue font i =
     frameOps (defaultState\<lparr>g_transform := gridTransform (gridCols layout) i\<rparr>) cfg
       (the (loadedImages ! i)) (if Suc i = length loadedImages then text else [])
       (if layout = ''single'' \<or> i = 0 then decoMap else []) filterValue font"

definition collageFrame ::
  "config \<Rightarrow> image option list \<Rightarrow> string \<Rightarrow> (string \<times> image) list
     \<Rightarrow> string \<Rightarrow> string \<Rightarrow> nat \<Rightarrow> (gstate \<times> prim) list" where
  "collageFrame cfg loadedImages text decoMap filterValue font i =
     (case nth_opt loadedImages i of
        None \<Rightarrow> []
      | Some im \<Rightarrow>
          if i = 0 then frameOps defaultState cfg im [] decoMap filterValue font
          else frameOps (defaultState\<lparr>g_transform := smallTransform i\<rparr>) cfg im
                 (if Suc i = length loadedImages then text else []) [] filterValue font)"

subsection \<open>Example inputs\<close>

text \<open>
  An image source for the examples: the photo \<open>''broken''\<close> and the ribbon asset do not
  decode, every other source decodes to a 400 by 300 image.
\<close>

definition demoDecode :: "string \<Rightarrow> image option" where
  "demoDecode src =
     (if src = ''broken'' \<or> src = ''assets/ribbon.png'' then None
      else Some \<lparr>img_src = src, img_width = 400, img_height = 300\<rparr>)"

text \<open>An image source that decodes everything.\<close>

definition allDecode :: "string \<Rightarrow> image option" where
  "allDecode src = Some \<lparr>img_src = src, img_width = 400, img_height = 300\<rparr>"

definition request :: "string \<Rightarrow> string list \<Rightarrow> string \<Rightarrow> string list \<Rightarrow> options" where
  "request layout imgs text decos =
     \<lparr>o_layout = layout, o_images = imgs, o_text = text, o_filter = ''none'',
      o_font = ''Caveat'', o_decorations = decos\<rparr>"

section \<open>Properties\<close>

lemmas CONSTANTS =
  FONT_SIZE_def PADDING_def TEXT_AREA_HEIGHT_def IMG_SIZE_def
  POLAROID_WIDTH_def POLAROID_HEIGHT_def GRID_GAP_def

declare shiftWhileLonger.simps [simp del]

declare expo.simps [simp del]

subsection \<open>Blocks and frames\<close>

lemma block_ok [simp]: "block (ok f # ss) cv = block ss (f cv)"
  by (simp add: ok_def)

lemma block_skip [simp]: "block (skip # ss) cv = block ss cv"
  by (simp add: skip_def)

lemma block_throw [simp]: "block (throw e # ss) cv = (Inl e, cv)"
  by (simp add: throw_def)

lemma block_append:
  "block (xs @ ys) cv =
     (case block xs cv of (Inl e, cv') \<Rightarrow> (Inl e, cv') | (Inr u, cv') \<Rightarrow> block ys cv')"
  by (induction xs arbitrary: cv) (auto split: prod.splits sum.splits)

lemma block_emits:
  assumes "\<And>x c. x \<in> set xs \<Longrightarrow> cv_state c = s \<Longrightarrow>
             body x c = (Inr (), c\<lparr>cv_ops := cv_ops c @ f x\<rparr>)"
    and "cv_state cv = s"
  shows "block (map body xs) cv = (Inr (), cv\<lparr>cv_ops := cv_ops cv @ concat (map f xs)\<rparr>)"
  using assms
proof (induction xs arbitrary: cv)
  case Nil
  then show ?case by simp
next
  case (Cons x xs)
  have step: "body x cv = (Inr (), cv\<lparr>cv_ops := cv_ops cv @ f x\<rparr>)"
    using Cons.prems by simp
  have "block (map body xs) (cv\<lparr>cv_ops := cv_ops cv @ f x\<rparr>)
          = (Inr (), (cv\<lparr>cv_ops := cv_ops cv @ f x\<rparr>)\<lparr>cv_ops := cv_ops (cv\<lparr>cv_ops := cv_ops cv @ f x\<rparr>) @ concat (map f xs)\<rparr>)"
    using Cons.prems by (intro Cons.IH) auto
  with step show ?case by simp
qed

lemma drawDecoration_emits:
  "cfg_decorations cfg (fst e) \<noteq> None \<Longrightarrow>
     drawDecoration cfg e c = (Inr (), c\<lparr>cv_ops := cv_ops c @ map (Pair (cv_state c)) (decoPrims cfg e)\<rparr>)"
  by (auto simp: drawDecoration_def decoPrims_def ok_def emit_def)

lemma drawImageWithAspectRatio_Some:
  "drawImageWithAspectRatio (Some im) dx dy W H cv = (Inr (), emit (coverPrim im dx dy W H) cv)"
  by (simp add: drawImageWithAspectRatio_def coverPrim_def ok_def Let_def)

lemma decorations_emit:
  assumes "\<forall>e \<in> set decoMap. cfg_decorations cfg (fst e) \<noteq> None"
  shows "block (map (drawDecoration cfg) decoMap) c =
     (Inr (), c\<lparr>cv_ops := cv_ops c @ map (Pair (cv_state c)) (concat (map (decoPrims cfg) decoMap))\<rparr>)"
proof -
  have "block (map (drawDecoration cfg) decoMap) c =
     (Inr (), c\<lparr>cv_ops := cv_ops c @ concat (map (\<lambda>e. map (Pair (cv_state c)) (decoPrims cfg e)) decoMap)\<rparr>)"
    using assms by (intro block_emits[where s = "cv_state c"]) (auto simp: drawDecoration_emits)
  then show ?thesis by (simp add: map_concat comp_def)
qed

lemma drawSinglePolaroid_emits:
  assumes "\<forall>e \<in> set decoMap. cfg_decorations cfg (fst e) \<noteq> None"
  shows "drawSinglePolaroid cfg (Some im) text decoMap fv font cv =
           (Inr (), cv\<lparr>cv_ops := cv_ops cv @ frameOps (cv_state cv) cfg im text decoMap fv font\<rparr>)"
  unfolding drawSinglePolaroid_def
  using assms
  by (simp add: drawImageWithAspectRatio_Some decorations_emit frameOps_def ok_def skip_def
        restore_def setFilter_def emit_def clip_def save_def)

lemma drawSinglePolaroid_undefined:
  "drawSinglePolaroid cfg None text decoMap fv font cv =
     (Inl TypeError,
      setFilter fv (clip (PADDING, PADDING, IMG_SIZE, IMG_SIZE)
        (save (emit (FillRect 0 0 POLAROID_WIDTH POLAROID_HEIGHT) cv))))"
  by (simp add: drawSinglePolaroid_def drawImageWithAspectRatio_def ok_def throw_def)

lemma gridCell_emits:
  assumes "\<forall>e \<in> set decoMap. cfg_decorations cfg (fst e) \<noteq> None"
    and "nth_opt loadedImages i = Some im"
  shows "gridCell cfg layout loadedImages text decoMap fv font i cv =
     (Inr (), cv\<lparr>cv_ops := cv_ops cv @
        frameOps ((cv_state cv)\<lparr>g_transform := (g_transform (cv_state cv))
             \<lparr>m_tx := m_tx (g_transform (cv_state cv)) + m_sx (g_transform (cv_state cv)) * (real (i mod gridCols layout) * (POLAROID_WIDTH + GRID_GAP)),
              m_ty := m_ty (g_transform (cv_state cv)) + m_sy (g_transform (cv_state cv)) * (real (i div gridCols layout) * (POLAROID_HEIGHT + GRID_GAP))\<rparr>\<rparr>)
          cfg im (if Suc i = length loadedImages then text else [])
          (if layout = ''single'' \<or> i = 0 then decoMap else []) fv font\<rparr>)"
  using assms
  by (auto simp add: gridCell_def Let_def drawSinglePolaroid_emits ok_def save_def restore_def translate_def)

lemma collageSmall_emits:
  assumes "nth_opt loadedImages i = Some im"
  shows "collageSmall cfg loadedImages text fv font i cv =
     (Inr (), cv\<lparr>cv_ops := cv_ops cv @
        frameOps ((cv_state cv)\<lparr>g_transform := (g_transform (cv_state cv))
             \<lparr>m_tx := m_tx (g_transform (cv_state cv)) + m_sx (g_transform (cv_state cv)) * ((real i - 1) * (w_small + GRID_GAP)),
              m_ty := m_ty (g_transform (cv_state cv)) + m_sy (g_transform (cv_state cv)) * (h_large + GRID_GAP),
              m_sx := m_sx (g_transform (cv_state cv)) * (w_small / POLAROID_WIDTH),
              m_sy := m_sy (g_transform (cv_state cv)) * (h_small / POLAROID_HEIGHT)\<rparr>\<rparr>)
          cfg im (if Suc i = length loadedImages then text else [])
          [] fv font\<rparr>)"
  using assms
  by (auto simp add: collageSmall_def Let_def drawSinglePolaroid_emits ok_def save_def restore_def translate_def scale_def)

lemma decoPromises_catalog:
  "decoPromises decode cfg ids = Inr ps \<Longrightarrow>
     \<forall>p \<in> set ps. \<forall>e. p = Some e \<longrightarrow> cfg_decorations cfg (fst e) \<noteq> None"
  by (induction ids arbitrary: ps) (auto split: option.splits sum.splits simp: map_option_case)

lemma entries_set: "entries ps = Inr es \<Longrightarrow> e \<in> set es \<Longrightarrow> Some e \<in> set ps"
proof (induction ps arbitrary: es)
  case Nil
  then show ?case by simp
next
  case (Cons p ps)
  show ?case
  proof (cases p)
    case None
    with Cons.prems show ?thesis by simp
  next
    case (Some d)
    with Cons.prems obtain es' where es': "entries ps = Inr es'" and es: "es = d # es'"
      by (cases "entries ps") auto
    with Cons.prems Cons.IH[OF es'] Some show ?thesis by auto
  qed
qed

lemma fold_update_keys:
  "fst ` set (fold (\<lambda>(k, v) m. AList.update k v m) es acc) = fst ` set es \<union> fst ` set acc"
  by (induction es arbitrary: acc) (auto simp: dom_update split: prod.splits)

lemma newMap_keys: "fst ` set (newMap es) = fst ` set es"
  by (simp add: newMap_def fold_update_keys)

lemma loadAssets_images:
  "loadAssets decode cfg imgs ids = Inr (loadedImages, decoMap) \<Longrightarrow> loadedImages = map decode imgs"
  by (auto simp: loadAssets_def Let_def split: sum.splits)

lemma loadAssets_catalog:
  assumes "loadAssets decode cfg imgs ids = Inr (loadedImages, decoMap)"
  shows "\<forall>e \<in> set decoMap. cfg_decorations cfg (fst e) \<noteq> None"
proof -
  from assms obtain ps es where ps: "decoPromises decode cfg ids = Inr ps"
    and es: "entries ps = Inr es" and dm: "decoMap = newMap es"
    by (auto simp: loadAssets_def Let_def split: sum.splits)
  have "\<forall>e \<in> set es. cfg_decorations cfg (fst e) \<noteq> None"
    using decoPromises_catalog[OF ps] entries_set[OF es] by blast
  moreover have "fst ` set decoMap = fst ` set es"
    using dm by (simp add: newMap_keys)
  ultimately show ?thesis
    by (metis (no_types, lifting) image_iff)
qed

lemma grid_loop:
  assumes cat: "\<forall>e \<in> set decoMap. cfg_decorations cfg (fst e) \<noteq> None"
    and imgs: "\<forall>x \<in> set loadedImages. x \<noteq> None"
    and st: "cv_state cv = defaultState"
  shows "block (map (gridCell cfg layout loadedImages text decoMap fv font)
                 [0..<length loadedImages]) cv =
     (Inr (), cv\<lparr>cv_ops := cv_ops cv @
        concat (map (gridFrame cfg layout loadedImages text decoMap fv font)
                 [0..<length loadedImages])\<rparr>)"
proof (rule block_emits[where s = defaultState, OF _ st])
  fix i and c :: canvas
  assume i: "i \<in> set [0..<length loadedImages]" and c: "cv_state c = defaultState"
  from i imgs have "nth_opt loadedImages i = Some (the (loadedImages ! i))"
    by (auto simp: nth_opt_def)
  from gridCell_emits[OF cat this, of layout "text" fv font c] c
  show "gridCell cfg layout loadedImages text decoMap fv font i c =
     (Inr (), c\<lparr>cv_ops := cv_ops c @ gridFrame cfg layout loadedImages text decoMap fv font i\<rparr>)"
    by (simp add: defaultState_def identity_def gridTransform_def gridFrame_def)
qed

lemma grid_surface:
  assumes la: "loadAssets decode cfg (o_images opts) (o_decorations opts) = Inr (loadedImages, decoMap)"
    and ne: "loadedImages \<noteq> []"
    and fe: "cfg_filters cfg (o_filter opts) = Some fe"
    and lay: "o_layout opts \<noteq> ''collage''"
    and imgs: "\<forall>x \<in> set loadedImages. x \<noteq> None"
  shows "createDownloadableCanvas decode cfg opts cv =
    (Inr (),
     \<lparr>cv_width = real (gridCols (o_layout opts)) * POLAROID_WIDTH
                   + (real (gridCols (o_layout opts)) - 1) * GRID_GAP,
      cv_height = real (gridRows (o_layout opts)) * POLAROID_HEIGHT
                   + (real (gridRows (o_layout opts)) - 1) * GRID_GAP,
      cv_state = defaultState, cv_stack = [],
      cv_ops = concat (map (gridFrame cfg (o_layout opts) loadedImages (o_text opts) decoMap
                              (f_value fe) (o_font opts))
                        [0..<length loadedImages])\<rparr>)"
  using la ne fe lay
  by (simp add: createDownloadableCanvas_def Let_def clearAll_def ok_def setWidth_def setHeight_def
        grid_loop[OF loadAssets_catalog[OF la] imgs])

lemma collageLarge_emits:
  assumes "\<forall>e \<in> set decoMap. cfg_decorations cfg (fst e) \<noteq> None"
    and "cv_state cv = defaultState"
  shows "collageLarge cfg loadedImages decoMap fv font cv =
     (Inr (), cv\<lparr>cv_ops := cv_ops cv @ collageFrame cfg loadedImages text decoMap fv font 0\<rparr>)"
  using assms
  by (cases "nth_opt loadedImages 0")
     (simp_all add: collageLarge_def collageFrame_def skip_def ok_def save_def restore_def
        drawSinglePolaroid_emits)

lemma collage_loop:
  assumes st: "cv_state cv = defaultState"
  shows "block (map (collageSmall cfg loadedImages text fv font) [1..<3]) cv =
     (Inr (), cv\<lparr>cv_ops := cv_ops cv @
        concat (map (collageFrame cfg loadedImages text decoMap fv font) [1..<3])\<rparr>)"
proof (rule block_emits[where s = defaultState, OF _ st])
  fix i and c :: canvas
  assume i: "i \<in> set [1..<3]" and c: "cv_state c = defaultState"
  show "collageSmall cfg loadedImages text fv font i c =
     (Inr (), c\<lparr>cv_ops := cv_ops c @ collageFrame cfg loadedImages text decoMap fv font i\<rparr>)"
  proof (cases "nth_opt loadedImages i")
    case None
    then show ?thesis by (simp add: collageSmall_def collageFrame_def skip_def)
  next
    case (Some im)
    from collageSmall_emits[OF Some, of cfg "text" fv font c] c i Some
    show ?thesis
      by (simp add: collageFrame_def defaultState_def identity_def smallTransform_def)
  qed
qed

lemma collage_surface:
  assumes la: "loadAssets decode cfg (o_images opts) (o_decorations opts) = Inr (loadedImages, decoMap)"
    and ne: "loadedImages \<noteq> []"
    and fe: "cfg_filters cfg (o_filter opts) = Some fe"
    and lay: "o_layout opts = ''collage''"
  shows "createDownloadableCanvas decode cfg opts cv =
    (Inr (),
     \<lparr>cv_width = w_large, cv_height = h_large + h_small + GRID_GAP,
      cv_state = defaultState, cv_stack = [],
      cv_ops = concat (map (collageFrame cfg loadedImages (o_text opts) decoMap
                              (f_value fe) (o_font opts)) [0..<3])\<rparr>)"
proof -
  let ?c = "\<lparr>cv_width = w_large, cv_height = h_large + h_small + GRID_GAP,
      cv_state = defaultState, cv_stack = [], cv_ops = []\<rparr>"
  have large: "collageLarge cfg loadedImages decoMap (f_value fe) (o_font opts) ?c =
     (Inr (), ?c\<lparr>cv_ops := cv_ops ?c @ collageFrame cfg loadedImages (o_text opts) decoMap (f_value fe) (o_font opts) 0\<rparr>)"
    by (rule collageLarge_emits[OF loadAssets_catalog[OF la]]) simp
  have upt: "[0..<3] = 0 # [Suc 0..<3]" by (simp add: upt_rec)
  note loop = collage_loop[where decoMap = decoMap, unfolded One_nat_def]
  show ?thesis
    using la ne fe lay
    by (simp add: createDownloadableCanvas_def Let_def clearAll_def ok_def setWidth_def
          setHeight_def large loop upt del: upt_Suc)
qed

subsection \<open>Reading the frames\<close>

lemma read_concat:
  "concat (map rd (concat (map f xs))) = concat (map (\<lambda>x. concat (map rd (f x))) xs)"
  by (induction xs) simp_all

lemma read_decoPrims:
  "concat (map (frameOf \<circ> Pair s) (concat (map (decoPrims cfg) dm))) = []"
  "concat (map (photoOf \<circ> Pair s) (concat (map (decoPrims cfg) dm))) = []"
  "concat (map (captionOf \<circ> Pair s) (concat (map (decoPrims cfg) dm))) = []"
  by (auto simp: decoPrims_def split: option.splits)

lemma decorated_decoPrims:
  "\<forall>e \<in> set dm. cfg_decorations cfg (fst e) \<noteq> None \<Longrightarrow>
   concat (map (decorationOf \<circ> Pair s) (concat (map (decoPrims cfg) dm)))
     = map (\<lambda>e. (g_transform s, snd e)) dm"
  by (induction dm) (auto simp: decoPrims_def split: option.splits)

lemma frames_frameOps:
  "concat (map frameOf (frameOps s cfg im text dm fv font)) = [g_transform s]"
  by (simp add: frameOps_def read_decoPrims coverPrim_def Let_def)

lemma photos_frameOps:
  "concat (map photoOf (frameOps s cfg im text dm fv font)) = [(g_transform s, im)]"
  by (simp add: frameOps_def read_decoPrims coverPrim_def Let_def)

lemma captions_frameOps:
  "concat (map captionOf (frameOps s cfg im text dm fv font)) =
     (if text \<noteq> [] then [(g_transform s, text)] else [])"
  by (simp add: frameOps_def read_decoPrims coverPrim_def Let_def)

lemma decorated_frameOps:
  "\<forall>e \<in> set dm. cfg_decorations cfg (fst e) \<noteq> None \<Longrightarrow>
   concat (map decorationOf (frameOps s cfg im text dm fv font)) =
     map (\<lambda>e. (g_transform s, snd e)) dm"
  by (simp add: frameOps_def decorated_decoPrims coverPrim_def Let_def)

lemma gridTransform_0: "gridTransform cols 0 = identity"
  by (simp add: gridTransform_def identity_def)

lemma frames_gridFrame:
  "concat (map frameOf (gridFrame cfg layout li text dm fv font i)) = [gridTransform (gridCols layout) i]"
  by (simp add: gridFrame_def frames_frameOps)

lemma photos_gridFrame:
  "concat (map photoOf (gridFrame cfg layout li text dm fv font i))
     = [(gridTransform (gridCols layout) i, the (li ! i))]"
  by (simp add: gridFrame_def photos_frameOps)

lemma captions_gridFrame:
  "concat (map captionOf (gridFrame cfg layout li text dm fv font i))
     = (if Suc i = length li \<and> text \<noteq> [] then [(gridTransform (gridCols layout) i, text)] else [])"
  by (simp add: gridFrame_def captions_frameOps)

lemma decorated_gridFrame:
  "\<forall>e \<in> set dm. cfg_decorations cfg (fst e) \<noteq> None \<Longrightarrow>
   concat (map decorationOf (gridFrame cfg layout li text dm fv font i))
     = (if layout = ''single'' \<or> i = 0
        then map (\<lambda>e. (gridTransform (gridCols layout) i, snd e)) dm else [])"
  by (simp add: gridFrame_def decorated_frameOps)

lemma concat_only_at:
  "concat (map (\<lambda>i. if i = k \<and> P then g i else []) [0..<n]) = (if k < n \<and> P then g k else [])"
  by (induction n) auto

lemma concat_only_last:
  "concat (map (\<lambda>i. if Suc i = k \<and> P then g i else []) [0..<n])
     = (if 0 < k \<and> k \<le> n \<and> P then g (k - 1) else [])"
  by (induction n) (auto simp: le_Suc_eq)

lemma frames_collageFrame:
  "concat (map frameOf (collageFrame cfg li text dm fv font i))
     = (case nth_opt li i of None \<Rightarrow> [] | Some im \<Rightarrow> [if i = 0 then identity else smallTransform i])"
  by (simp add: collageFrame_def frames_frameOps defaultState_def split: option.splits)

lemma photos_collageFrame:
  "concat (map photoOf (collageFrame cfg li text dm fv font i))
     = (case nth_opt li i of None \<Rightarrow> []
        | Some im \<Rightarrow> [(if i = 0 then identity else smallTransform i, im)])"
  by (simp add: collageFrame_def photos_frameOps defaultState_def split: option.splits)

lemma captions_collageFrame:
  "concat (map captionOf (collageFrame cfg li text dm fv font i))
     = (case nth_opt li i of None \<Rightarrow> []
        | Some im \<Rightarrow> if i \<noteq> 0 \<and> Suc i = length li \<and> text \<noteq> [] then [(smallTransform i, text)] else [])"
  by (cases "nth_opt li i"; cases "i = 0")
     (simp_all add: collageFrame_def captions_frameOps defaultState_def del: concat_eq_Nil_conv)

lemma decorated_collageFrame:
  "\<forall>e \<in> set dm. cfg_decorations cfg (fst e) \<noteq> None \<Longrightarrow>
   concat (map decorationOf (collageFrame cfg li text dm fv font i))
     = (case nth_opt li i of None \<Rightarrow> []
        | Some im \<Rightarrow> if i = 0 then map (\<lambda>e. (identity, snd e)) dm else [])"
  by (simp add: collageFrame_def decorated_frameOps defaultState_def split: option.splits)

lemma upt_3: "[0..<3] = [0, 1, 2]"
  by (simp add: upt_rec)

subsection \<open>The capture list\<close>

lemma shiftWhileLonger_drop: "shiftWhileLonger m xs = drop (length xs - m) xs"
proof (induction m xs rule: shiftWhileLonger.induct)
  case (1 m xs)
  show ?case
  proof (cases "length xs > m")
    case True
    then have "shiftWhileLonger m xs = drop (length (tl xs) - m) (tl xs)"
      using 1 by (subst shiftWhileLonger.simps) (simp add: shift_def)
    also have "\<dots> = drop (length xs - m) xs"
      using True by (cases xs) (simp_all add: Suc_diff_le)
    finally show ?thesis .
  next
    case False
    then show ?thesis by (subst shiftWhileLonger.simps) simp
  qed
qed

text \<open>
  The earlier revision keeps the list within the capacity of the current layout after
  every call, whatever the list was before.
\<close>

lemma addCapturedImage_app_bounded:
  "length (st_capturedImages (addCapturedImage_app x st))
     \<le> getMaxImagesForLayout_app (st_layout (addCapturedImage_app x st))"
  by (simp add: addCapturedImage_app_def Let_def shiftWhileLonger_drop)

text \<open>
  The later revision keeps a list that is within the capacity within it, evicting the
  oldest image when the list is full; a list that is too long keeps its length.
\<close>

lemma addCapturedImage_within_capacity:
  assumes "length (st_capturedImages st) \<le> getMaxImagesForLayout (st_layout st)"
  shows "length (st_capturedImages (addCapturedImage x st)) \<le> getMaxImagesForLayout (st_layout st)
     \<and> st_capturedImages (addCapturedImage x st) =
         (if length (st_capturedImages st) = getMaxImagesForLayout (st_layout st)
          then tl (st_capturedImages st) else st_capturedImages st) @ [x]"
  using assms
  by (auto simp: addCapturedImage_def Let_def shift_def getMaxImagesForLayout_def)

lemma addCapturedImage_length:
  "length (st_capturedImages (addCapturedImage x st)) =
     (if length (st_capturedImages st) \<ge> getMaxImagesForLayout (st_layout st)
      then length (st_capturedImages st) else Suc (length (st_capturedImages st)))"
  by (auto simp: addCapturedImage_def Let_def shift_def getMaxImagesForLayout_def)

lemma addCapturedImage_record:
  "addCapturedImage x \<lparr>st_layout = l, st_capturedImages = xs\<rparr> =
     \<lparr>st_layout = l,
      st_capturedImages = (if getMaxImagesForLayout l \<le> length xs then tl xs else xs) @ [x]\<rparr>"
  by (simp add: addCapturedImage_def Let_def shift_def)

text \<open>
  Claim C10: after every call of \<^verbatim>\<open>addCapturedImage\<close> the capture list is no longer
  than the capacity of the current layout, also when layout changes lower the capacity.
  The later revision breaks it: four captures in layout \<open>grid-2x2\<close>, a change to layout
  \<open>single\<close> and one more capture leave four images in a layout of capacity one.
\<close>

theorem capture_list_exceeds_capacity:
  "let st0 = \<lparr>st_layout = ''single'', st_capturedImages = []\<rparr>;
       st1 = addCapturedImage ''d'' (addCapturedImage ''c'' (addCapturedImage ''b''
               (addCapturedImage ''a'' (selectLayout ''grid-2x2'' st0))));
       st2 = addCapturedImage ''e'' (selectLayout ''single'' st1)
   in st_capturedImages st1 = [''a'', ''b'', ''c'', ''d'']
      \<and> st_capturedImages st2 = [''b'', ''c'', ''d'', ''e'']
      \<and> getMaxImagesForLayout (st_layout st2) = 1
      \<and> \<not> length (st_capturedImages st2) \<le> getMaxImagesForLayout (st_layout st2)"
proof -
  have l4: "getMaxImagesForLayout ''grid-2x2'' = 4" and l1: "getMaxImagesForLayout ''single'' = 1"
    by (simp_all add: getMaxImagesForLayout_def)
  have st1: "addCapturedImage ''d'' (addCapturedImage ''c'' (addCapturedImage ''b''
               (addCapturedImage ''a'' (selectLayout ''grid-2x2'' \<lparr>st_layout = ''single'', st_capturedImages = []\<rparr>))))
              = \<lparr>st_layout = ''grid-2x2'', st_capturedImages = [''a'', ''b'', ''c'', ''d'']\<rparr>"
    by (simp add: selectLayout_def addCapturedImage_record l4)
  have st2: "addCapturedImage ''e'' (selectLayout ''single'' \<lparr>st_layout = ''grid-2x2'', st_capturedImages = [''a'', ''b'', ''c'', ''d'']\<rparr>)
              = \<lparr>st_layout = ''single'', st_capturedImages = [''b'', ''c'', ''d'', ''e'']\<rparr>"
    by (simp add: selectLayout_def addCapturedImage_record l1)
  show ?thesis
    unfolding Let_def st1 st2 by (simp add: l1)
qed

subsection \<open>Evaluating a composition\<close>

text \<open>The definitions that a concrete call of the compositor unfolds.\<close>

lemmas run_defs =
  createDownloadableCanvas_def loadAssets_def newMap_def Let_def request_def
  initConfig_def newCanvas_def clearAll_def ok_def skip_def throw_def emit_def
  setWidth_def setHeight_def collageLarge_def collageSmall_def gridCell_def gridCols_def
  gridRows_def drawSinglePolaroid_def drawImageWithAspectRatio_def drawDecoration_def
  nth_opt_def save_def restore_def translate_def scale_def clip_def setFilter_def
  defaultState_def identity_def w_large_def h_large_def w_small_def h_small_def

subsection \<open>A decoration that fails to load\<close>

text \<open>
  A decoration whose decode rejects leaves \<^verbatim>\<open>undefined\<close> in \<^verbatim>\<open>loadedDecos\<close>, and
  building the map from it throws: the composition is aborted with a \<^verbatim>\<open>TypeError\<close>
  before the canvas is touched, whatever else was requested.
\<close>

lemma decoPromises_error: "decoPromises decode cfg ids = Inl e \<Longrightarrow> e = TypeError"
  by (induction ids) (auto split: option.splits sum.splits)

lemma decoPromises_failed:
  assumes "did \<in> set ids" and "cfg_decorations cfg did = Some d" and "decode (d_url d) = None"
    and "decoPromises decode cfg ids = Inr ps"
  shows "None \<in> set ps"
  using assms
proof (induction ids arbitrary: ps)
  case Nil
  then show ?case by simp
next
  case (Cons a ids)
  from Cons.prems(4) obtain d' ps' where a: "cfg_decorations cfg a = Some d'"
    and ps': "decoPromises decode cfg ids = Inr ps'"
    and ps: "ps = map_option (\<lambda>img. (a, img)) (decode (d_url d')) # ps'"
    by (auto split: option.splits sum.splits)
  show ?case
  proof (cases "did = a")
    case True
    with Cons.prems a ps show ?thesis by simp
  next
    case False
    with Cons.prems have "did \<in> set ids" by simp
    from Cons.IH[OF this Cons.prems(2,3) ps'] ps show ?thesis by simp
  qed
qed

lemma entries_undefined: "None \<in> set ps \<Longrightarrow> entries ps = Inl TypeError"
proof (induction ps)
  case Nil
  then show ?case by simp
next
  case (Cons p ps)
  then show ?case by (cases p) auto
qed

lemma loadAssets_failed_decoration:
  assumes "did \<in> set ids" and "cfg_decorations cfg did = Some d" and "decode (d_url d) = None"
  shows "loadAssets decode cfg imgs ids = Inl TypeError"
proof (cases "decoPromises decode cfg ids")
  case (Inl e)
  then show ?thesis using decoPromises_error[OF Inl] by (simp add: loadAssets_def)
next
  case (Inr ps)
  from decoPromises_failed[OF assms Inr] have "entries ps = Inl TypeError"
    by (rule entries_undefined)
  with Inr show ?thesis by (simp add: loadAssets_def)
qed

lemma failed_decoration_raises:
  assumes "did \<in> set (o_decorations opts)" and "cfg_decorations cfg did = Some d"
    and "decode (d_url d) = None"
  shows "createDownloadableCanvas decode cfg opts cv = (Inl TypeError, cv)"
  using loadAssets_failed_decoration[where decode = decode, OF assms]
  by (simp add: createDownloadableCanvas_def throw_def)

text \<open>
  Claim C1: with one active decoration that fails to load and one that loads, the
  composition completes without an error and shows the decoration that loaded. The code
  does not: a photo that loads, the ribbon (whose asset fails) and the heart (whose asset
  loads) end in a \<^verbatim>\<open>TypeError\<close> raised to the caller, and nothing is drawn.
\<close>

theorem failed_decoration_aborts:
  "createDownloadableCanvas demoDecode initConfig
     (request ''single'' [''photo''] ''hi'' [''ribbon-decoration'', ''heart-decoration''])
     newCanvas
   = (Inl TypeError, newCanvas)"
  by (simp add: run_defs demoDecode_def)

subsection \<open>No image to draw\<close>

text \<open>An empty image list is rejected before any drawing, provided the decorations load.\<close>

lemma no_images_raises:
  assumes "o_images opts = []"
    and "loadAssets decode cfg (o_images opts) (o_decorations opts) = Inr (loadedImages, decoMap)"
  shows "createDownloadableCanvas decode cfg opts cv = (Inl NoImagesError, cv)"
  using assms loadAssets_images[OF assms(2)]
  by (simp add: createDownloadableCanvas_def throw_def)

text \<open>
  Claim C2: when no main image resolves, the composition fails with the no-images error
  before any drawing. The code does so for an empty list only. A main image whose decode
  rejects stays in \<^verbatim>\<open>loadedImages\<close> as \<^verbatim>\<open>undefined\<close>, so the list is not empty: in
  the collage layout the call returns a blank surface and no error; in the single layout
  it throws a \<^verbatim>\<open>TypeError\<close> after the background of the first frame is drawn.
\<close>

theorem failed_images_not_reported:
  "createDownloadableCanvas demoDecode initConfig
     (request ''collage'' [''broken''] ''hi'' []) newCanvas
   = (Inr (), \<lparr>cv_width = 1120, cv_height = 2660, cv_state = defaultState,
               cv_stack = [], cv_ops = []\<rparr>)
   \<and> fst (createDownloadableCanvas demoDecode initConfig
            (request ''single'' [''broken''] ''hi'' []) newCanvas) = Inl TypeError
   \<and> cv_ops (snd (createDownloadableCanvas demoDecode initConfig
            (request ''single'' [''broken''] ''hi'' []) newCanvas))
       = [(defaultState, FillRect 0 0 1120 1280)]"
  by (simp add: run_defs demoDecode_def upt_rec CONSTANTS)

subsection \<open>The caption\<close>

text \<open>
  Claim C3: for a non-empty image list, in every layout, exactly one drawn frame (the one
  of the last loaded image) receives the caption. The collage branch passes the empty
  string to the large frame, so a collage of one image draws one frame and no caption.
\<close>

theorem collage_single_image_loses_caption:
  "fst (createDownloadableCanvas allDecode initConfig
          (request ''collage'' [''a''] ''hi'' []) newCanvas) = Inr ()
   \<and> frames (snd (createDownloadableCanvas allDecode initConfig
          (request ''collage'' [''a''] ''hi'' []) newCanvas)) = [identity]
   \<and> captions (snd (createDownloadableCanvas allDecode initConfig
          (request ''collage'' [''a''] ''hi'' []) newCanvas)) = []"
  by (simp add: run_defs allDecode_def upt_rec frames_def captions_def)

text \<open>
  In the other layouts, when all assets load, frame \<open>i\<close> is drawn for every image and
  the caption, if not empty, is drawn once, on the frame of the last image. In the
  collage the caption reaches the last frame when there are two or three images.
\<close>

lemma grid_captions:
  assumes la: "loadAssets decode cfg (o_images opts) (o_decorations opts) = Inr (loadedImages, decoMap)"
    and ne: "loadedImages \<noteq> []"
    and fe: "cfg_filters cfg (o_filter opts) = Some fe"
    and lay: "o_layout opts \<noteq> ''collage''"
    and imgs: "\<forall>x \<in> set loadedImages. x \<noteq> None"
  shows "frames (snd (createDownloadableCanvas decode cfg opts cv))
           = map (gridTransform (gridCols (o_layout opts))) [0..<length loadedImages]"
    and "captions (snd (createDownloadableCanvas decode cfg opts cv))
           = (if o_text opts \<noteq> []
              then [(gridTransform (gridCols (o_layout opts)) (length loadedImages - 1), o_text opts)]
              else [])"
  using ne
  by (simp_all add: grid_surface[OF assms] frames_def captions_def read_concat frames_gridFrame
        captions_gridFrame concat_only_last)

lemma nth_opt_loaded:
  "\<forall>x \<in> set li. x \<noteq> None \<Longrightarrow>
     nth_opt li i = (if i < length li then Some (the (li ! i)) else None)"
  by (auto simp: nth_opt_def)

lemma collage_captions:
  assumes la: "loadAssets decode cfg (o_images opts) (o_decorations opts) = Inr (loadedImages, decoMap)"
    and ne: "loadedImages \<noteq> []"
    and fe: "cfg_filters cfg (o_filter opts) = Some fe"
    and lay: "o_layout opts = ''collage''"
    and imgs: "\<forall>x \<in> set loadedImages. x \<noteq> None"
  shows "captions (snd (createDownloadableCanvas decode cfg opts cv))
           = (if o_text opts \<noteq> [] \<and> (length loadedImages = 2 \<or> length loadedImages = 3)
              then [(smallTransform (length loadedImages - 1), o_text opts)]
              else [])"
  by (auto simp add: collage_surface[OF la ne fe lay] captions_def read_concat
        captions_collageFrame upt_3 nth_opt_loaded[OF imgs])

subsection \<open>The size of the surface\<close>

text \<open>A call that returns a surface has loaded its assets, at least one image slot, and its filter.\<close>

lemma createDownloadableCanvas_returns:
  assumes "fst (createDownloadableCanvas decode cfg opts cv) = Inr ()"
  obtains loadedImages decoMap fe where
    "loadAssets decode cfg (o_images opts) (o_decorations opts) = Inr (loadedImages, decoMap)"
    and "loadedImages \<noteq> []" and "cfg_filters cfg (o_filter opts) = Some fe"
  using assms
  by (auto simp: createDownloadableCanvas_def throw_def split: sum.splits prod.splits if_splits option.splits)

text \<open>Drawing never changes the size of the canvas, whether it throws or not.\<close>

lemma block_size:
  assumes "\<And>s c. s \<in> set ss \<Longrightarrow>
             cv_width (snd (s c)) = cv_width c \<and> cv_height (snd (s c)) = cv_height c"
  shows "cv_width (snd (block ss c)) = cv_width c \<and> cv_height (snd (block ss c)) = cv_height c"
  using assms
proof (induction ss arbitrary: c)
  case Nil
  then show ?case by simp
next
  case (Cons s ss)
  have s: "cv_width (snd (s c)) = cv_width c \<and> cv_height (snd (s c)) = cv_height c"
    using Cons.prems by simp
  obtain r c' where sc: "s c = (r, c')" by (cases "s c")
  show ?case
  proof (cases r)
    case (Inl e)
    with sc s show ?thesis by simp
  next
    case (Inr u)
    have "cv_width (snd (block ss c')) = cv_width c' \<and> cv_height (snd (block ss c')) = cv_height c'"
      using Cons.prems by (intro Cons.IH) simp
    with Inr sc s show ?thesis by simp
  qed
qed

lemma decorations_size:
  "cv_width (snd (block (map (drawDecoration cfg) dm) c)) = cv_width c
   \<and> cv_height (snd (block (map (drawDecoration cfg) dm) c)) = cv_height c"
  by (rule block_size)
     (auto simp: drawDecoration_def ok_def throw_def emit_def split: option.splits)

lemma drawSinglePolaroid_size:
  "cv_width (snd (drawSinglePolaroid cfg img text dm fv font c)) = cv_width c
   \<and> cv_height (snd (drawSinglePolaroid cfg img text dm fv font c)) = cv_height c"
  unfolding drawSinglePolaroid_def
  by (rule block_size)
     (auto simp: decorations_size ok_def skip_def throw_def emit_def save_def restore_def clip_def
        setFilter_def drawImageWithAspectRatio_def Let_def split: option.splits list.splits)

lemma gridCell_size:
  "cv_width (snd (gridCell cfg layout li text dm fv font i c)) = cv_width c
   \<and> cv_height (snd (gridCell cfg layout li text dm fv font i c)) = cv_height c"
  unfolding gridCell_def Let_def
  by (rule block_size)
     (auto simp: drawSinglePolaroid_size ok_def save_def restore_def translate_def Let_def
        split: list.splits)

lemma grid_loop_size:
  "cv_width (snd (block (map (gridCell cfg layout li text dm fv font) is) c)) = cv_width c
   \<and> cv_height (snd (block (map (gridCell cfg layout li text dm fv font) is) c)) = cv_height c"
  by (rule block_size) (auto simp: gridCell_size)

lemma snd_rethrow:
  "snd (case x of (Inl e, c') \<Rightarrow> (Inl e, c') | (Inr u, c') \<Rightarrow> block [] c') = snd x"
  by (auto split: prod.splits sum.splits)

lemma grid_size:
  assumes la: "loadAssets decode cfg (o_images opts) (o_decorations opts) = Inr (loadedImages, decoMap)"
    and ne: "loadedImages \<noteq> []"
    and fe: "cfg_filters cfg (o_filter opts) = Some fe"
    and lay: "o_layout opts \<noteq> ''collage''"
  shows "cv_width (snd (createDownloadableCanvas decode cfg opts cv))
           = real (gridCols (o_layout opts)) * POLAROID_WIDTH
               + (real (gridCols (o_layout opts)) - 1) * GRID_GAP"
    and "cv_height (snd (createDownloadableCanvas decode cfg opts cv))
           = real (gridRows (o_layout opts)) * POLAROID_HEIGHT
               + (real (gridRows (o_layout opts)) - 1) * GRID_GAP"
  using la ne fe lay
  by (simp_all add: createDownloadableCanvas_def Let_def clearAll_def ok_def snd_rethrow
        grid_loop_size setWidth_def setHeight_def)

text \<open>
  Claim C5. The surface that a composition returns has, for the layouts \<open>single\<close>,
  \<open>grid-2x2\<close> and \<open>grid-strip\<close>, width \<open>cols * cellWidth + (cols - 1) * gap\<close> and
  height \<open>rows * cellHeight + (rows - 1) * gap\<close> with \<open>(cols, rows)\<close> equal to
  \<open>(1, 1)\<close>, \<open>(2, 2)\<close> and \<open>(1, 4)\<close>; for the collage it is as wide as the large frame
  and as high as the large frame, a small frame and the gap together. The cell width is
  the image side plus twice the padding, the cell height the image side plus the padding
  plus the caption band.
\<close>

theorem surface_dimensions:
  assumes "fst (createDownloadableCanvas decode cfg opts cv) = Inr ()"
  shows "let surface = snd (createDownloadableCanvas decode cfg opts cv);
             cellWidth = IMG_SIZE + 2 * PADDING;
             cellHeight = IMG_SIZE + PADDING + TEXT_AREA_HEIGHT;
             gap = GRID_GAP
         in POLAROID_WIDTH = cellWidth \<and> POLAROID_HEIGHT = cellHeight
          \<and> (o_layout opts = ''single'' \<longrightarrow>
                cv_width surface = 1 * cellWidth + (1 - 1) * gap
              \<and> cv_height surface = 1 * cellHeight + (1 - 1) * gap)
          \<and> (o_layout opts = ''grid-2x2'' \<longrightarrow>
                cv_width surface = 2 * cellWidth + (2 - 1) * gap
              \<and> cv_height surface = 2 * cellHeight + (2 - 1) * gap)
          \<and> (o_layout opts = ''grid-strip'' \<longrightarrow>
                cv_width surface = 1 * cellWidth + (1 - 1) * gap
              \<and> cv_height surface = 4 * cellHeight + (4 - 1) * gap)
          \<and> (o_layout opts = ''collage'' \<longrightarrow>
                w_large = cellWidth \<and> h_large = cellHeight
              \<and> cv_width surface = w_large
              \<and> cv_height surface = h_large + h_small + gap)"
proof -
  from assms obtain loadedImages decoMap fe where
    la: "loadAssets decode cfg (o_images opts) (o_decorations opts) = Inr (loadedImages, decoMap)"
    and ne: "loadedImages \<noteq> []" and fe: "cfg_filters cfg (o_filter opts) = Some fe"
    by (rule createDownloadableCanvas_returns)
  have cell: "POLAROID_WIDTH = IMG_SIZE + 2 * PADDING"
    "POLAROID_HEIGHT = IMG_SIZE + PADDING + TEXT_AREA_HEIGHT"
    by (simp_all add: CONSTANTS)
  have single: "o_layout opts = ''single'' \<Longrightarrow>
      cv_width (snd (createDownloadableCanvas decode cfg opts cv)) = POLAROID_WIDTH
    \<and> cv_height (snd (createDownloadableCanvas decode cfg opts cv)) = POLAROID_HEIGHT"
    using grid_size[OF la ne fe, of cv] by (simp add: gridCols_def gridRows_def)
  have g22: "o_layout opts = ''grid-2x2'' \<Longrightarrow>
      cv_width (snd (createDownloadableCanvas decode cfg opts cv)) = 2 * POLAROID_WIDTH + GRID_GAP
    \<and> cv_height (snd (createDownloadableCanvas decode cfg opts cv)) = 2 * POLAROID_HEIGHT + GRID_GAP"
    using grid_size[OF la ne fe, of cv] by (simp add: gridCols_def gridRows_def)
  have strip: "o_layout opts = ''grid-strip'' \<Longrightarrow>
      cv_width (snd (createDownloadableCanvas decode cfg opts cv)) = POLAROID_WIDTH
    \<and> cv_height (snd (createDownloadableCanvas decode cfg opts cv)) = 4 * POLAROID_HEIGHT + 3 * GRID_GAP"
    using grid_size[OF la ne fe, of cv] by (simp add: gridCols_def gridRows_def)
  have collage: "o_layout opts = ''collage'' \<Longrightarrow>
      cv_width (snd (createDownloadableCanvas decode cfg opts cv)) = w_large
    \<and> cv_height (snd (createDownloadableCanvas decode cfg opts cv)) = h_large + h_small + GRID_GAP"
    using collage_surface[OF la ne fe, of cv] by simp
  show ?thesis
    unfolding Let_def
    using single g22 strip collage cell
    by (simp add: w_large_def h_large_def)
qed

text \<open>Two photos in the 2 by 2 grid, and three in the collage.\<close>

theorem surface_dimensions_witness:
  "fst (createDownloadableCanvas allDecode initConfig
          (request ''grid-2x2'' [''a'', ''b''] ''hi'' []) newCanvas) = Inr ()
   \<and> cv_width (snd (createDownloadableCanvas allDecode initConfig
          (request ''grid-2x2'' [''a'', ''b''] ''hi'' []) newCanvas)) = 2340
   \<and> cv_height (snd (createDownloadableCanvas allDecode initConfig
          (request ''grid-2x2'' [''a'', ''b''] ''hi'' []) newCanvas)) = 2660
   \<and> fst (createDownloadableCanvas allDecode initConfig
          (request ''collage'' [''a'', ''b'', ''c''] ''hi'' []) newCanvas) = Inr ()
   \<and> cv_width (snd (createDownloadableCanvas allDecode initConfig
          (request ''collage'' [''a'', ''b'', ''c''] ''hi'' []) newCanvas)) = 1120
   \<and> cv_height (snd (createDownloadableCanvas allDecode initConfig
          (request ''collage'' [''a'', ''b'', ''c''] ''hi'' []) newCanvas)) = 2660"
proof -
  have g: "fst (createDownloadableCanvas allDecode initConfig
          (request ''grid-2x2'' [''a'', ''b''] ''hi'' []) newCanvas) = Inr ()"
    by (simp add: run_defs allDecode_def upt_rec)
  have c: "fst (createDownloadableCanvas allDecode initConfig
          (request ''collage'' [''a'', ''b'', ''c''] ''hi'' []) newCanvas) = Inr ()"
    by (simp add: run_defs allDecode_def upt_rec)
  show ?thesis
    using g c surface_dimensions[OF g] surface_dimensions[OF c]
    by (simp add: Let_def request_def CONSTANTS w_large_def h_large_def h_small_def)
qed

subsection \<open>The small frames of the collage\<close>





subsection \<open>Photos, frames and decorations of a composition\<close>

lemma gridTransform_eq_identity:
  "0 < cols \<Longrightarrow> (gridTransform cols i = identity) = (i = 0)"
  by (auto simp: gridTransform_def identity_def CONSTANTS div_eq_0_iff)

lemma smallTransform_neq_identity: "smallTransform i \<noteq> identity"
  by (simp add: smallTransform_def identity_def h_large_def CONSTANTS)

lemma gridCols_pos: "0 < gridCols layout"
  by (simp add: gridCols_def)

lemma concat_only_first:
  "concat (map (\<lambda>i. if i = 0 then g i else []) [0..<n]) = (if 0 < n then g 0 else [])"
  by (induction n) auto

lemma primary_frame_unique:
  "0 < cols \<Longrightarrow>
     filter (\<lambda>m. m = identity) (map (gridTransform cols) [0..<Suc n]) = [identity]"
proof (induction n)
  case 0
  then show ?case by (simp add: gridTransform_0)
next
  case (Suc n)
  have neq: "gridTransform cols (Suc n) \<noteq> identity"
    using Suc.prems by (simp add: gridTransform_eq_identity)
  have split: "map (gridTransform cols) [0..<Suc (Suc n)]
                 = map (gridTransform cols) [0..<Suc n] @ [gridTransform cols (Suc n)]"
    by simp
  show ?case
    unfolding split filter_append Suc.IH[OF Suc.prems] using neq by simp
qed

lemma grid_photos:
  assumes la: "loadAssets decode cfg (o_images opts) (o_decorations opts) = Inr (loadedImages, decoMap)"
    and ne: "loadedImages \<noteq> []"
    and fe: "cfg_filters cfg (o_filter opts) = Some fe"
    and lay: "o_layout opts \<noteq> ''collage''"
    and imgs: "\<forall>x \<in> set loadedImages. x \<noteq> None"
  shows "photos (snd (createDownloadableCanvas decode cfg opts cv))
           = map (\<lambda>i. (gridTransform (gridCols (o_layout opts)) i, the (loadedImages ! i)))
               [0..<length loadedImages]"
  by (simp add: grid_surface[OF assms] photos_def read_concat photos_gridFrame)

lemma grid_decorated:
  assumes la: "loadAssets decode cfg (o_images opts) (o_decorations opts) = Inr (loadedImages, decoMap)"
    and ne: "loadedImages \<noteq> []"
    and fe: "cfg_filters cfg (o_filter opts) = Some fe"
    and lay: "o_layout opts \<noteq> ''collage''"
    and imgs: "\<forall>x \<in> set loadedImages. x \<noteq> None"
  shows "decorated (snd (createDownloadableCanvas decode cfg opts cv))
           = concat (map (\<lambda>i. if o_layout opts = ''single'' \<or> i = 0
                               then map (\<lambda>e. (gridTransform (gridCols (o_layout opts)) i, snd e)) decoMap
                               else [])
               [0..<length loadedImages])"
  by (simp add: grid_surface[OF assms] decorated_def read_concat
        decorated_gridFrame[OF loadAssets_catalog[OF la]])

lemma collage_readings:
  assumes la: "loadAssets decode cfg (o_images opts) (o_decorations opts) = Inr (loadedImages, decoMap)"
    and ne: "loadedImages \<noteq> []"
    and fe: "cfg_filters cfg (o_filter opts) = Some fe"
    and lay: "o_layout opts = ''collage''"
    and imgs: "\<forall>x \<in> set loadedImages. x \<noteq> None"
  shows "photos (snd (createDownloadableCanvas decode cfg opts cv))
           = map (\<lambda>i. (if i = 0 then identity else smallTransform i, the (loadedImages ! i)))
               [0..<min 3 (length loadedImages)]"
    and "frames (snd (createDownloadableCanvas decode cfg opts cv))
           = map (\<lambda>i. if i = 0 then identity else smallTransform i)
               [0..<min 3 (length loadedImages)]"
    and "decorated (snd (createDownloadableCanvas decode cfg opts cv))
           = map (\<lambda>e. (identity, snd e)) decoMap"
proof -
  have "0 < length loadedImages" using ne by simp
  then consider "length loadedImages = 1" | "length loadedImages = 2" | "3 \<le> length loadedImages"
    by linarith
  note n = this
  have u2: "[0..<2] = [0, 1]" by (simp add: upt_rec)
  show "photos (snd (createDownloadableCanvas decode cfg opts cv))
           = map (\<lambda>i. (if i = 0 then identity else smallTransform i, the (loadedImages ! i)))
               [0..<min 3 (length loadedImages)]"
    using n ne
    by cases
       (simp_all add: collage_surface[OF la ne fe lay] photos_def read_concat photos_collageFrame
          upt_3 nth_opt_loaded[OF imgs] u2 min_def)
  show "frames (snd (createDownloadableCanvas decode cfg opts cv))
           = map (\<lambda>i. if i = 0 then identity else smallTransform i)
               [0..<min 3 (length loadedImages)]"
    using n ne
    by cases
       (simp_all add: collage_surface[OF la ne fe lay] frames_def read_concat frames_collageFrame
          upt_3 nth_opt_loaded[OF imgs] u2 min_def)
  show "decorated (snd (createDownloadableCanvas decode cfg opts cv))
           = map (\<lambda>e. (identity, snd e)) decoMap"
    using ne
    by (simp add: collage_surface[OF la ne fe lay] decorated_def read_concat
          decorated_collageFrame[OF loadAssets_catalog[OF la]] upt_3 nth_opt_loaded[OF imgs])
qed

text \<open>
  The loader resolves when every active decoration is in the catalog and decodes; the
  loaded images are the decode results of the sources, in order, failures included.
\<close>

lemma decoPromises_resolve:
  assumes "\<forall>did \<in> set ids. \<exists>d. cfg_decorations cfg did = Some d \<and> decode (d_url d) \<noteq> None"
  shows "\<exists>ps. decoPromises decode cfg ids = Inr ps \<and> None \<notin> set ps"
  using assms
proof (induction ids)
  case Nil
  then show ?case by simp
next
  case (Cons a ids)
  then obtain ps where ps: "decoPromises decode cfg ids = Inr ps" "None \<notin> set ps" by auto
  from Cons.prems obtain d where d: "cfg_decorations cfg a = Some d" "decode (d_url d) \<noteq> None"
    by auto
  with ps show ?case by auto
qed

lemma entries_defined: "None \<notin> set ps \<Longrightarrow> \<exists>es. entries ps = Inr es"
proof (induction ps)
  case Nil
  then show ?case by simp
next
  case (Cons p ps)
  then show ?case by (cases p) auto
qed

lemma loadAssets_resolves:
  assumes "\<forall>did \<in> set ids. \<exists>d. cfg_decorations cfg did = Some d \<and> decode (d_url d) \<noteq> None"
  shows "\<exists>decoMap. loadAssets decode cfg imgs ids = Inr (map decode imgs, decoMap)"
proof -
  from decoPromises_resolve[OF assms] obtain ps where
    ps: "decoPromises decode cfg ids = Inr ps" "None \<notin> set ps" by blast
  from entries_defined[OF ps(2)] obtain es where "entries ps = Inr es" ..
  with ps(1) show ?thesis by (simp add: loadAssets_def)
qed

text \<open>When every asset loads, the call returns a surface.\<close>

lemma grid_returns:
  assumes la: "loadAssets decode cfg (o_images opts) (o_decorations opts) = Inr (loadedImages, decoMap)"
    and ne: "loadedImages \<noteq> []"
    and fe: "cfg_filters cfg (o_filter opts) = Some fe"
    and imgs: "\<forall>x \<in> set loadedImages. x \<noteq> None"
  shows "fst (createDownloadableCanvas decode cfg opts cv) = Inr ()"
proof (cases "o_layout opts = ''collage''")
  case True
  then show ?thesis by (simp add: collage_surface[OF la ne fe])
next
  case False
  then show ?thesis by (simp add: grid_surface[OF la ne fe _ imgs])
qed

subsection \<open>More images than the layout holds\<close>

text \<open>
  Where frame \<open>i\<close> of a grid lies: within the surface when \<open>i\<close> is below the capacity
  of the layout, and with its top edge at or below the bottom edge of the surface
  otherwise.
\<close>

lemma layout_values:
  "gridCols ''single'' = 1" "gridRows ''single'' = 1" "getMaxImagesForLayout ''single'' = 1"
  "gridCols ''grid-2x2'' = 2" "gridRows ''grid-2x2'' = 2" "getMaxImagesForLayout ''grid-2x2'' = 4"
  "gridCols ''grid-strip'' = 1" "gridRows ''grid-strip'' = 4" "getMaxImagesForLayout ''grid-strip'' = 4"
  by (simp_all add: gridCols_def gridRows_def getMaxImagesForLayout_def)

lemma frame_on_surface:
  assumes "layout \<in> {''single'', ''grid-2x2'', ''grid-strip''}"
    and "i < getMaxImagesForLayout layout"
  shows "m_tx (gridTransform (gridCols layout) i) + POLAROID_WIDTH
           \<le> real (gridCols layout) * POLAROID_WIDTH + (real (gridCols layout) - 1) * GRID_GAP
       \<and> m_ty (gridTransform (gridCols layout) i) + POLAROID_HEIGHT
           \<le> real (gridRows layout) * POLAROID_HEIGHT + (real (gridRows layout) - 1) * GRID_GAP"
proof -
  from assms(1) consider "layout = ''single''" | "layout = ''grid-2x2''" | "layout = ''grid-strip''"
    by blast
  then show ?thesis
  proof cases
    case 1
    with assms(2) have "i = 0" by (simp add: layout_values)
    with 1 show ?thesis by (simp add: layout_values gridTransform_def)
  next
    case 2
    with assms(2) have i: "i < 4" by (simp add: layout_values)
    have "i mod 2 \<le> 1" by simp
    then have x: "real (i mod 2) \<le> 1" by (metis of_nat_le_iff of_nat_1)
    from i have "i div 2 \<le> 1" by simp
    then have y: "real (i div 2) \<le> 1" by (metis of_nat_le_iff of_nat_1)
    have "real (i mod 2) * (POLAROID_WIDTH + GRID_GAP) + POLAROID_WIDTH \<le> 2 * POLAROID_WIDTH + GRID_GAP"
      using x by (simp add: CONSTANTS)
    moreover have "real (i div 2) * (POLAROID_HEIGHT + GRID_GAP) + POLAROID_HEIGHT \<le> 2 * POLAROID_HEIGHT + GRID_GAP"
      using y by (simp add: CONSTANTS)
    ultimately show ?thesis using 2 by (simp add: layout_values gridTransform_def)
  next
    case 3
    with assms(2) have "i < 4" by (simp add: layout_values)
    then have "i \<le> 3" by simp
    then have y: "real i \<le> 3" by (metis of_nat_le_iff of_nat_numeral)
    have "real i * (POLAROID_HEIGHT + GRID_GAP) + POLAROID_HEIGHT \<le> 4 * POLAROID_HEIGHT + 3 * GRID_GAP"
      using y by (simp add: CONSTANTS)
    then show ?thesis using 3 by (simp add: layout_values gridTransform_def)
  qed
qed

lemma frame_below_surface:
  assumes "layout \<in> {''single'', ''grid-2x2'', ''grid-strip''}"
    and "getMaxImagesForLayout layout \<le> i"
  shows "real (gridRows layout) * POLAROID_HEIGHT + (real (gridRows layout) - 1) * GRID_GAP
           \<le> m_ty (gridTransform (gridCols layout) i)"
proof -
  from assms(1) consider "layout = ''single''" | "layout = ''grid-2x2''" | "layout = ''grid-strip''"
    by blast
  then show ?thesis
  proof cases
    case 1
    with assms(2) have "1 \<le> i" by (simp add: layout_values)
    then have y: "1 \<le> real i" by (metis of_nat_le_iff of_nat_1)
    have "POLAROID_HEIGHT \<le> real i * (POLAROID_HEIGHT + GRID_GAP)"
      using y by (simp add: CONSTANTS)
    then show ?thesis using 1 by (simp add: layout_values gridTransform_def)
  next
    case 2
    with assms(2) have "4 \<le> i" by (simp add: layout_values)
    then have "2 \<le> i div 2" by simp
    then have y: "2 \<le> real (i div 2)" by (metis of_nat_le_iff of_nat_numeral)
    have "2 * POLAROID_HEIGHT + GRID_GAP \<le> real (i div 2) * (POLAROID_HEIGHT + GRID_GAP)"
      using y by (simp add: CONSTANTS)
    then show ?thesis using 2 by (simp add: layout_values gridTransform_def)
  next
    case 3
    with assms(2) have "4 \<le> i" by (simp add: layout_values)
    then have y: "4 \<le> real i" by (metis of_nat_le_iff of_nat_numeral)
    have "4 * POLAROID_HEIGHT + 3 * GRID_GAP \<le> real i * (POLAROID_HEIGHT + GRID_GAP)"
      using y by (simp add: CONSTANTS)
    then show ?thesis using 3 by (simp add: layout_values gridTransform_def)
  qed
qed

text \<open>
  Claim C4: when the image list is longer than the capacity of the layout, only the
  first images, as many as the capacity, are placed and no drawing of the others occurs;
  the single layout with three images renders only the first. The loop of the grid branch
  runs over all loaded images: the single layout with three images draws three photos,
  the second and the third under the first.
\<close>

theorem extra_images_are_drawn:
  "photos (snd (createDownloadableCanvas allDecode initConfig
             (request ''single'' [''a'', ''b'', ''c''] ''hi'' []) newCanvas))
   = [(\<lparr>m_sx = 1, m_sy = 1, m_tx = 0, m_ty = 0\<rparr>,
        \<lparr>img_src = ''a'', img_width = 400, img_height = 300\<rparr>),
      (\<lparr>m_sx = 1, m_sy = 1, m_tx = 0, m_ty = 1380\<rparr>,
        \<lparr>img_src = ''b'', img_width = 400, img_height = 300\<rparr>),
      (\<lparr>m_sx = 1, m_sy = 1, m_tx = 0, m_ty = 2760\<rparr>,
        \<lparr>img_src = ''c'', img_width = 400, img_height = 300\<rparr>)]"
  by (simp add: run_defs allDecode_def upt_rec photos_def CONSTANTS)

text \<open>
  Claim C4, amended. When all assets load, the call returns a surface. In the layouts
  \<open>single\<close>, \<open>grid-2x2\<close> and \<open>grid-strip\<close> a photo is drawn for every image, image
  \<open>i\<close> in column \<open>i mod cols\<close> and row \<open>i div cols\<close>; the frames below the capacity
  of the layout lie within the surface, and every frame from the capacity on starts at or
  below the bottom edge of the surface, so only the first images, as many as the capacity,
  fall on the surface. In the collage only the images 0, 1 and 2 are drawn.
\<close>

theorem extra_images_below_surface:
  assumes la: "loadAssets decode cfg (o_images opts) (o_decorations opts) = Inr (loadedImages, decoMap)"
    and ne: "loadedImages \<noteq> []"
    and fe: "cfg_filters cfg (o_filter opts) = Some fe"
    and imgs: "\<forall>x \<in> set loadedImages. x \<noteq> None"
  shows "let r = createDownloadableCanvas decode cfg opts cv;
             surface = snd r;
             layout = o_layout opts;
             cols = gridCols layout
         in fst r = Inr ()
          \<and> (layout \<in> {''single'', ''grid-2x2'', ''grid-strip''} \<longrightarrow>
                photos surface
                  = map (\<lambda>i. (gridTransform cols i, the (loadedImages ! i)))
                      [0..<length loadedImages]
              \<and> (\<forall>i. i < getMaxImagesForLayout layout \<longrightarrow>
                     m_tx (gridTransform cols i) + POLAROID_WIDTH \<le> cv_width surface
                   \<and> m_ty (gridTransform cols i) + POLAROID_HEIGHT \<le> cv_height surface)
              \<and> (\<forall>i. getMaxImagesForLayout layout \<le> i \<longrightarrow>
                     cv_height surface \<le> m_ty (gridTransform cols i)))
          \<and> (layout = ''collage'' \<longrightarrow>
                photos surface
                  = map (\<lambda>i. (if i = 0 then identity else smallTransform i, the (loadedImages ! i)))
                      [0..<min 3 (length loadedImages)])"
proof -
  have ret: "fst (createDownloadableCanvas decode cfg opts cv) = Inr ()"
    by (rule grid_returns[OF la ne fe imgs])
  have grid: "photos (snd (createDownloadableCanvas decode cfg opts cv))
                  = map (\<lambda>i. (gridTransform (gridCols (o_layout opts)) i, the (loadedImages ! i)))
                      [0..<length loadedImages]
              \<and> (\<forall>i. i < getMaxImagesForLayout (o_layout opts) \<longrightarrow>
                     m_tx (gridTransform (gridCols (o_layout opts)) i) + POLAROID_WIDTH
                       \<le> cv_width (snd (createDownloadableCanvas decode cfg opts cv))
                   \<and> m_ty (gridTransform (gridCols (o_layout opts)) i) + POLAROID_HEIGHT
                       \<le> cv_height (snd (createDownloadableCanvas decode cfg opts cv)))
              \<and> (\<forall>i. getMaxImagesForLayout (o_layout opts) \<le> i \<longrightarrow>
                     cv_height (snd (createDownloadableCanvas decode cfg opts cv))
                       \<le> m_ty (gridTransform (gridCols (o_layout opts)) i))"
    if l: "o_layout opts \<in> {''single'', ''grid-2x2'', ''grid-strip''}"
  proof -
    from l have nc: "o_layout opts \<noteq> ''collage''" by auto
    show ?thesis
      using frame_on_surface[OF l] frame_below_surface[OF l]
      by (simp add: grid_photos[OF la ne fe nc imgs] grid_size[OF la ne fe nc])
  qed
  have collage: "photos (snd (createDownloadableCanvas decode cfg opts cv))
                  = map (\<lambda>i. (if i = 0 then identity else smallTransform i, the (loadedImages ! i)))
                      [0..<min 3 (length loadedImages)]"
    if "o_layout opts = ''collage''"
    by (rule collage_readings(1)[OF la ne fe that imgs])
  show ?thesis
    unfolding Let_def using ret grid collage by blast
qed

text \<open>The single layout with three photos: the frames 1 and 2 start below the surface.\<close>

theorem extra_images_below_surface_witness:
  "loadAssets allDecode initConfig [''a'', ''b'', ''c''] []
     = Inr ([Some \<lparr>img_src = ''a'', img_width = 400, img_height = 300\<rparr>,
             Some \<lparr>img_src = ''b'', img_width = 400, img_height = 300\<rparr>,
             Some \<lparr>img_src = ''c'', img_width = 400, img_height = 300\<rparr>], [])
   \<and> fst (createDownloadableCanvas allDecode initConfig
            (request ''single'' [''a'', ''b'', ''c''] ''hi'' []) newCanvas) = Inr ()
   \<and> getMaxImagesForLayout ''single'' = 1
   \<and> cv_height (snd (createDownloadableCanvas allDecode initConfig
            (request ''single'' [''a'', ''b'', ''c''] ''hi'' []) newCanvas))
        \<le> m_ty (gridTransform (gridCols ''single'') 1)
   \<and> cv_height (snd (createDownloadableCanvas allDecode initConfig
            (request ''single'' [''a'', ''b'', ''c''] ''hi'' []) newCanvas))
        \<le> m_ty (gridTransform (gridCols ''single'') 2)
   \<and> m_ty (gridTransform (gridCols ''single'') 0) + POLAROID_HEIGHT
        \<le> cv_height (snd (createDownloadableCanvas allDecode initConfig
            (request ''single'' [''a'', ''b'', ''c''] ''hi'' []) newCanvas))"
proof -
  let ?opts = "request ''single'' [''a'', ''b'', ''c''] ''hi'' []"
  let ?li = "[Some \<lparr>img_src = ''a'', img_width = 400, img_height = 300\<rparr>,
             Some \<lparr>img_src = ''b'', img_width = 400, img_height = 300\<rparr>,
             Some \<lparr>img_src = ''c'', img_width = 400, img_height = 300\<rparr>]"
  have la: "loadAssets allDecode initConfig (o_images ?opts) (o_decorations ?opts) = Inr (?li, [])"
    by (simp add: loadAssets_def newMap_def request_def allDecode_def)
  have fe: "cfg_filters initConfig (o_filter ?opts) = Some \<lparr>f_name = ''None'', f_value = ''none''\<rparr>"
    by (simp add: initConfig_def request_def)
  have ne: "?li \<noteq> []" and imgs: "\<forall>x \<in> set ?li. x \<noteq> None" by simp_all
  have lay: "o_layout ?opts = ''single''" by (simp add: request_def)
  have cap: "getMaxImagesForLayout ''single'' = 1" by (simp add: getMaxImagesForLayout_def)
  from extra_images_below_surface[OF la ne fe imgs, of newCanvas] la
  show ?thesis
    unfolding Let_def lay cap by (simp add: request_def)
qed

subsection \<open>Where the decorations go\<close>

lemma collage_primary_frame_unique:
  "filter (\<lambda>m. m = identity)
     (map (\<lambda>i. if i = 0 then identity else smallTransform i) [0..<Suc k]) = [identity]"
proof (induction k)
  case 0
  then show ?case by simp
next
  case (Suc k)
  have split: "map (\<lambda>i. if i = 0 then identity else smallTransform i) [0..<Suc (Suc k)]
                 = map (\<lambda>i. if i = 0 then identity else smallTransform i) [0..<Suc k]
                   @ [smallTransform (Suc k)]"
    by simp
  show ?case
    unfolding split filter_append Suc.IH by (simp add: smallTransform_neq_identity)
qed

text \<open>
  Claim C7: for every compose call, decorations are drawn on the primary frame only and
  never on more than one frame. The grid branch hands the decorations to every frame
  when the layout is \<open>single\<close>: with two images the heart is drawn on both frames.
\<close>

theorem single_layout_decorates_every_frame:
  "decorated (snd (createDownloadableCanvas allDecode initConfig
                (request ''single'' [''a'', ''b''] ''hi'' [''heart-decoration'']) newCanvas))
   = [(\<lparr>m_sx = 1, m_sy = 1, m_tx = 0, m_ty = 0\<rparr>,
        \<lparr>img_src = ''assets/heart.png'', img_width = 400, img_height = 300\<rparr>),
      (\<lparr>m_sx = 1, m_sy = 1, m_tx = 0, m_ty = 1380\<rparr>,
        \<lparr>img_src = ''assets/heart.png'', img_width = 400, img_height = 300\<rparr>)]"
  by (simp add: run_defs allDecode_def upt_rec decorated_def CONSTANTS)

text \<open>
  Claim C7, amended. When all assets load and, in the layout \<open>single\<close>, there is one
  image, the call returns a surface on which every loaded decoration is drawn once, under
  the identity transform, and exactly one frame is drawn under the identity transform:
  the primary frame (frame 0 of a grid, the large frame of the collage).
\<close>

theorem decorations_on_primary_frame:
  assumes la: "loadAssets decode cfg (o_images opts) (o_decorations opts) = Inr (loadedImages, decoMap)"
    and ne: "loadedImages \<noteq> []"
    and fe: "cfg_filters cfg (o_filter opts) = Some fe"
    and imgs: "\<forall>x \<in> set loadedImages. x \<noteq> None"
    and one: "o_layout opts = ''single'' \<longrightarrow> length loadedImages = 1"
  shows "let r = createDownloadableCanvas decode cfg opts cv
         in fst r = Inr ()
          \<and> decorated (snd r) = map (\<lambda>e. (identity, snd e)) decoMap
          \<and> filter (\<lambda>m. m = identity) (frames (snd r)) = [identity]"
proof -
  have ret: "fst (createDownloadableCanvas decode cfg opts cv) = Inr ()"
    by (rule grid_returns[OF la ne fe imgs])
  obtain n where n: "length loadedImages = Suc n"
    using ne by (cases loadedImages) auto
  have deco: "decorated (snd (createDownloadableCanvas decode cfg opts cv))
                = map (\<lambda>e. (identity, snd e)) decoMap"
  proof (cases "o_layout opts = ''collage''")
    case True
    then show ?thesis by (rule collage_readings(3)[OF la ne fe _ imgs])
  next
    case nc: False
    show ?thesis
    proof (cases "o_layout opts = ''single''")
      case True
      with one have "length loadedImages = 1" by simp
      with True show ?thesis
        by (simp add: grid_decorated[OF la ne fe nc imgs] gridTransform_0)
    next
      case False
      then show ?thesis
        using ne
        by (simp add: grid_decorated[OF la ne fe nc imgs] concat_only_first gridTransform_0)
    qed
  qed
  have prim: "filter (\<lambda>m. m = identity) (frames (snd (createDownloadableCanvas decode cfg opts cv)))
                = [identity]"
  proof (cases "o_layout opts = ''collage''")
    case True
    have "\<exists>k. min 3 (length loadedImages) = Suc k"
      using n by (cases "min 3 (length loadedImages)") (auto simp: min_def split: if_splits)
    then obtain k where k: "min 3 (length loadedImages) = Suc k" ..
    show ?thesis
      unfolding collage_readings(2)[OF la ne fe True imgs, of cv] k
      by (rule collage_primary_frame_unique)
  next
    case False
    show ?thesis
      using primary_frame_unique[OF gridCols_pos, of "o_layout opts" n]
      by (simp add: grid_captions(1)[OF la ne fe False imgs] n del: upt_Suc)
  qed
  show ?thesis
    unfolding Let_def using ret deco prim by blast
qed

text \<open>Two photos in the 2 by 2 grid with the heart and the sparkle.\<close>

theorem decorations_on_primary_frame_witness:
  "loadAssets allDecode initConfig [''a'', ''b''] [''heart-decoration'', ''sparkle-decoration'']
     = Inr ([Some \<lparr>img_src = ''a'', img_width = 400, img_height = 300\<rparr>,
             Some \<lparr>img_src = ''b'', img_width = 400, img_height = 300\<rparr>],
            [(''heart-decoration'', \<lparr>img_src = ''assets/heart.png'', img_width = 400, img_height = 300\<rparr>),
             (''sparkle-decoration'', \<lparr>img_src = ''assets/sparkle.svg'', img_width = 400, img_height = 300\<rparr>)])
   \<and> fst (createDownloadableCanvas allDecode initConfig
            (request ''grid-2x2'' [''a'', ''b''] ''hi'' [''heart-decoration'', ''sparkle-decoration''])
            newCanvas) = Inr ()
   \<and> decorated (snd (createDownloadableCanvas allDecode initConfig
            (request ''grid-2x2'' [''a'', ''b''] ''hi'' [''heart-decoration'', ''sparkle-decoration''])
            newCanvas))
       = [(identity, \<lparr>img_src = ''assets/heart.png'', img_width = 400, img_height = 300\<rparr>),
          (identity, \<lparr>img_src = ''assets/sparkle.svg'', img_width = 400, img_height = 300\<rparr>)]
   \<and> filter (\<lambda>m. m = identity)
         (frames (snd (createDownloadableCanvas allDecode initConfig
            (request ''grid-2x2'' [''a'', ''b''] ''hi'' [''heart-decoration'', ''sparkle-decoration''])
            newCanvas))) = [identity]"
proof -
  let ?opts = "request ''grid-2x2'' [''a'', ''b''] ''hi'' [''heart-decoration'', ''sparkle-decoration'']"
  let ?li = "[Some \<lparr>img_src = ''a'', img_width = 400, img_height = 300\<rparr>,
             Some \<lparr>img_src = ''b'', img_width = 400, img_height = 300\<rparr>]"
  let ?dm = "[(''heart-decoration'', \<lparr>img_src = ''assets/heart.png'', img_width = 400, img_height = 300\<rparr>),
             (''sparkle-decoration'', \<lparr>img_src = ''assets/sparkle.svg'', img_width = 400, img_height = 300\<rparr>)]"
  have la: "loadAssets allDecode initConfig (o_images ?opts) (o_decorations ?opts) = Inr (?li, ?dm)"
    by (simp add: loadAssets_def newMap_def request_def allDecode_def initConfig_def)
  have fe: "cfg_filters initConfig (o_filter ?opts) = Some \<lparr>f_name = ''None'', f_value = ''none''\<rparr>"
    by (simp add: initConfig_def request_def)
  have ne: "?li \<noteq> []" and imgs: "\<forall>x \<in> set ?li. x \<noteq> None" by simp_all
  have one: "o_layout ?opts = ''single'' \<longrightarrow> length ?li = 1" by (simp add: request_def)
  from decorations_on_primary_frame[OF la ne fe imgs one, of newCanvas] la
  show ?thesis
    unfolding Let_def by (simp add: request_def)
qed

subsection \<open>A layout id that is not known\<close>

text \<open>
  Claim C8: a layout id that is not one of the recognized layouts makes the composition
  fail with an invalid-layout error instead of producing a surface. The code has no such
  check: an unknown id takes the grid branch with one column and one row, and a surface
  is returned.
\<close>

theorem unknown_layout_returns_surface:
  "fst (createDownloadableCanvas allDecode initConfig
          (request ''mosaic'' [''a''] ''hi'' []) newCanvas) = Inr ()"
  by (simp add: run_defs allDecode_def upt_rec)

text \<open>
  Claim C8, amended. For a layout id other than \<open>single\<close>, \<open>grid-2x2\<close>,
  \<open>grid-strip\<close>, \<open>grid-4x1\<close> and \<open>collage\<close>, a call whose assets all load raises no
  error: it returns a surface of the size of one frame, with the images laid out in one
  column as in the single layout; with one image the result is that of the single layout.
\<close>

theorem unknown_layout_drawn_as_single:
  assumes la: "loadAssets decode cfg (o_images opts) (o_decorations opts) = Inr (loadedImages, decoMap)"
    and ne: "loadedImages \<noteq> []"
    and fe: "cfg_filters cfg (o_filter opts) = Some fe"
    and imgs: "\<forall>x \<in> set loadedImages. x \<noteq> None"
    and lay: "o_layout opts \<notin> {''single'', ''grid-2x2'', ''grid-strip'', ''grid-4x1'', ''collage''}"
  shows "let r = createDownloadableCanvas decode cfg opts cv
         in fst r = Inr ()
          \<and> cv_width (snd r) = POLAROID_WIDTH
          \<and> cv_height (snd r) = POLAROID_HEIGHT
          \<and> frames (snd r) = map (gridTransform 1) [0..<length loadedImages]
          \<and> (length loadedImages = 1 \<longrightarrow>
                r = createDownloadableCanvas decode cfg (opts\<lparr>o_layout := ''single''\<rparr>) cv)"
proof -
  from lay have nc: "o_layout opts \<noteq> ''collage''" and cols: "gridCols (o_layout opts) = 1"
    and rows: "gridRows (o_layout opts) = 1"
    by (auto simp: gridCols_def gridRows_def)
  have ret: "fst (createDownloadableCanvas decode cfg opts cv) = Inr ()"
    by (rule grid_returns[OF la ne fe imgs])
  have size: "cv_width (snd (createDownloadableCanvas decode cfg opts cv)) = POLAROID_WIDTH"
    "cv_height (snd (createDownloadableCanvas decode cfg opts cv)) = POLAROID_HEIGHT"
    by (simp_all add: grid_size[OF la ne fe nc] cols rows)
  have fr: "frames (snd (createDownloadableCanvas decode cfg opts cv))
              = map (gridTransform 1) [0..<length loadedImages]"
    by (simp add: grid_captions(1)[OF la ne fe nc imgs] cols)
  have same: "createDownloadableCanvas decode cfg opts cv
                = createDownloadableCanvas decode cfg (opts\<lparr>o_layout := ''single''\<rparr>) cv"
    if one: "length loadedImages = 1"
  proof -
    let ?single = "opts\<lparr>o_layout := ''single''\<rparr>"
    have la': "loadAssets decode cfg (o_images ?single) (o_decorations ?single)
                 = Inr (loadedImages, decoMap)"
      using la by simp
    have fe': "cfg_filters cfg (o_filter ?single) = Some fe" using fe by simp
    have nc': "o_layout ?single \<noteq> ''collage''" by simp
    show ?thesis
      unfolding grid_surface[OF la ne fe nc imgs] grid_surface[OF la' ne fe' nc' imgs]
      by (simp add: one cols rows layout_values(1,2) gridFrame_def)
  qed
  show ?thesis
    unfolding Let_def using ret size fr same by blast
qed

text \<open>The layout id \<open>mosaic\<close> with one photo.\<close>

theorem unknown_layout_drawn_as_single_witness:
  "loadAssets allDecode initConfig [''a''] []
     = Inr ([Some \<lparr>img_src = ''a'', img_width = 400, img_height = 300\<rparr>], [])
   \<and> ''mosaic'' \<notin> {''single'', ''grid-2x2'', ''grid-strip'', ''grid-4x1'', ''collage''}
   \<and> fst (createDownloadableCanvas allDecode initConfig
            (request ''mosaic'' [''a''] ''hi'' []) newCanvas) = Inr ()
   \<and> cv_width (snd (createDownloadableCanvas allDecode initConfig
            (request ''mosaic'' [''a''] ''hi'' []) newCanvas)) = POLAROID_WIDTH
   \<and> cv_height (snd (createDownloadableCanvas allDecode initConfig
            (request ''mosaic'' [''a''] ''hi'' []) newCanvas)) = POLAROID_HEIGHT
   \<and> createDownloadableCanvas allDecode initConfig (request ''mosaic'' [''a''] ''hi'' []) newCanvas
       = createDownloadableCanvas allDecode initConfig (request ''single'' [''a''] ''hi'' []) newCanvas"
proof -
  let ?opts = "request ''mosaic'' [''a''] ''hi'' []"
  let ?li = "[Some \<lparr>img_src = ''a'', img_width = 400, img_height = 300\<rparr>]"
  have la0: "loadAssets allDecode initConfig [''a''] [] = Inr (?li, [])"
    by (simp add: loadAssets_def newMap_def allDecode_def)
  have la: "loadAssets allDecode initConfig (o_images ?opts) (o_decorations ?opts) = Inr (?li, [])"
    using la0 by (simp add: request_def)
  have fe: "cfg_filters initConfig (o_filter ?opts) = Some \<lparr>f_name = ''None'', f_value = ''none''\<rparr>"
    by (simp add: initConfig_def request_def)
  have ne: "?li \<noteq> []" and imgs: "\<forall>x \<in> set ?li. x \<noteq> None" by simp_all
  have lay0: "''mosaic'' \<notin> {''single'', ''grid-2x2'', ''grid-strip'', ''grid-4x1'', ''collage''}"
    by simp
  have lay: "o_layout ?opts \<notin> {''single'', ''grid-2x2'', ''grid-strip'', ''grid-4x1'', ''collage''}"
    using lay0 by (simp add: request_def)
  have upd: "?opts\<lparr>o_layout := ''single''\<rparr> = request ''single'' [''a''] ''hi'' []"
    by (simp add: request_def)
  have len: "length ?li = 1" by simp
  note th = unknown_layout_drawn_as_single[OF la ne fe imgs lay, of newCanvas, unfolded Let_def upd]
  note c1 = th[THEN conjunct1]
  note c2 = th[THEN conjunct2, THEN conjunct1]
  note c3 = th[THEN conjunct2, THEN conjunct2, THEN conjunct1]
  note c5 = th[THEN conjunct2, THEN conjunct2, THEN conjunct2, THEN conjunct2, THEN mp, OF len]
  show ?thesis
    by (intro conjI la0 lay0 c1 c2 c3 c5)
qed

subsection \<open>Rounding\<close>

text \<open>
  The rounded value is within half a unit in the last place of the exact one: the
  relative error of \<open>rnd\<close> is at most \<open>1 / 2 ^ 53\<close>.
\<close>

lemma roundEven_close: "\<bar>of_int (roundEven y) - y\<bar> \<le> 1 / 2"
proof -
  have "of_int \<lfloor>y\<rfloor> \<le> y" "y < of_int \<lfloor>y\<rfloor> + 1" by linarith+
  then show ?thesis
    by (auto simp: roundEven_def Let_def abs_le_iff)
qed

lemma expo_bounds: "0 < x \<Longrightarrow> 2 powi (expo x) \<le> x \<and> x < 2 powi (expo x + 1)"
proof (induction x rule: expo.induct)
  case (1 x)
  show ?case
  proof (cases "2 \<le> x")
    case True
    with "1.prems" have e: "expo x = expo (x / 2) + 1" by (subst expo.simps) simp
    from "1.IH"(1) True "1.prems"
    have ih: "2 powi (expo (x / 2)) \<le> x / 2 \<and> x / 2 < 2 powi (expo (x / 2) + 1)" by simp
    have p1: "(2::real) powi (expo (x / 2) + 1) = 2 powi (expo (x / 2)) * 2"
      by (simp add: power_int_add)
    have p2: "(2::real) powi (expo (x / 2) + 1 + 1) = 2 powi (expo (x / 2) + 1) * 2"
      by (simp add: power_int_add)
    show ?thesis unfolding e p2 using ih p1 by simp
  next
    case False
    show ?thesis
    proof (cases "x < 1")
      case True
      with False "1.prems" have e: "expo x = expo (2 * x) - 1" by (subst expo.simps) simp
      from "1.IH"(2) True False "1.prems"
      have ih: "2 powi (expo (2 * x)) \<le> 2 * x \<and> 2 * x < 2 powi (expo (2 * x) + 1)" by simp
      have p1: "(2::real) powi (expo (2 * x)) = 2 powi (expo (2 * x) - 1) * 2"
        by (simp add: power_int_minus_mult)
      have p2: "(2::real) powi (expo (2 * x) + 1) = 2 powi (expo (2 * x)) * 2"
        by (simp add: power_int_add)
      show ?thesis unfolding e using ih p1 p2 by simp
    next
      case F2: False
      with False "1.prems" have "expo x = 0" by (subst expo.simps) simp
      with False F2 show ?thesis by simp
    qed
  qed
qed

lemma expo_unique:
  assumes "0 < x" and "2 powi e \<le> x" and "x < 2 powi (e + 1)"
  shows "expo x = e"
proof -
  from expo_bounds[OF assms(1)]
  have b: "2 powi (expo x) \<le> x" "x < 2 powi (expo x + 1)" by simp_all
  have "(2::real) powi e < 2 powi (expo x + 1)" using assms(2) b(2) by linarith
  then have "e < expo x + 1"
    by (metis power_int_strict_increasing not_less linorder_neqE_linordered_idom less_irrefl less_trans one_less_numeral_iff semiring_norm(76))
  moreover have "(2::real) powi (expo x) < 2 powi (e + 1)" using assms(3) b(1) by linarith
  then have "expo x < e + 1"
    by (metis power_int_strict_increasing not_less linorder_neqE_linordered_idom less_irrefl less_trans one_less_numeral_iff semiring_norm(76))
  ultimately show ?thesis by simp
qed

lemma rnd_pos:
  assumes "0 < x"
  shows "rnd x = of_int (roundEven (x / 2 powi (expo x - 52))) * 2 powi (expo x - 52)"
  using assms by (simp add: rnd_def Let_def)

lemma rnd_minus: "rnd (- x) = - rnd x"
  by (simp add: rnd_def Let_def sgn_if)

lemma rnd_error_pos:
  assumes "0 < x"
  shows "\<bar>rnd x - x\<bar> \<le> x / 2 ^ 53"
proof -
  define e where "e = expo x"
  define q :: real where "q = 2 powi (e - 52)"
  have qpos: "0 < q" by (simp add: q_def)
  have lo: "2 powi e \<le> x" using expo_bounds[OF assms] by (simp add: e_def)
  have "rnd x - x = (of_int (roundEven (x / q)) - x / q) * q"
    using qpos by (simp add: rnd_pos[OF assms] e_def q_def algebra_simps)
  then have "\<bar>rnd x - x\<bar> = \<bar>of_int (roundEven (x / q)) - x / q\<bar> * q"
    using qpos by (simp add: abs_mult)
  also have "\<dots> \<le> (1 / 2) * q"
    using roundEven_close[of "x / q"] qpos by (intro mult_right_mono) simp_all
  also have "\<dots> = 2 powi e / 2 ^ 53"
  proof -
    have "(2::real) powi (e - 52) = 2 powi e * 2 powi (- 52)"
      by (simp add: power_int_diff power_int_minus_divide power_int_add)
    then show ?thesis by (simp add: q_def power_int_minus_divide)
  qed
  also have "\<dots> \<le> x / 2 ^ 53" using lo by (simp add: divide_right_mono)
  finally show ?thesis .
qed

lemma rnd_error: "\<bar>rnd x - x\<bar> \<le> \<bar>x\<bar> / 2 ^ 53"
proof (cases "0 < x")
  case True
  then show ?thesis using rnd_error_pos[OF True] by simp
next
  case False
  show ?thesis
  proof (cases "x = 0")
    case True
    then show ?thesis by (simp add: rnd_def)
  next
    case F: False
    with False have "0 < - x" by simp
    from rnd_error_pos[OF this] show ?thesis using False by (simp add: rnd_minus)
  qed
qed

lemma moderate_pos: "moderate x \<Longrightarrow> 0 < x"
proof -
  assume "moderate x"
  then have "1 / 2 ^ 200 \<le> x" by (simp add: moderate_def)
  moreover have "(0::real) < 1 / 2 ^ 200" by simp
  ultimately show ?thesis by linarith
qed

subsection \<open>Cover fit\<close>

text \<open>
  How far the rounded ratio, extent and offset of the cover-fit routine are from the
  exact ones.
\<close>

lemma abs_boundsD: "\<bar>x - a\<bar> \<le> e \<Longrightarrow> a - e \<le> x \<and> x \<le> a + e" for x a e :: real
  by linarith

lemma shrink_mono: "s \<le> t \<Longrightarrow> s - s / 2 ^ 53 \<le> t - t / 2 ^ 53" for s t :: real
proof -
  assume "s \<le> t"
  then have "0 \<le> t - s" by simp
  then have "(t - s) / 2 ^ 53 \<le> (t - s) / 1"
    by (intro divide_left_mono) simp_all
  then have "t / 2 ^ 53 - s / 2 ^ 53 \<le> t - s" by (simp add: diff_divide_distrib)
  then show ?thesis by linarith
qed

lemma ratio_bounds:
  assumes "0 < a" and "0 < b"
  shows "\<bar>max (rnd a) (rnd b) - max a b\<bar> \<le> max a b / 2 ^ 53"
    and "a - a / 2 ^ 53 \<le> max (rnd a) (rnd b)"
    and "b - b / 2 ^ 53 \<le> max (rnd a) (rnd b)"
proof -
  from abs_boundsD[OF rnd_error_pos[OF assms(1)]]
  have a: "rnd a \<le> a + a / 2 ^ 53" "a - a / 2 ^ 53 \<le> rnd a" by simp_all
  from abs_boundsD[OF rnd_error_pos[OF assms(2)]]
  have b: "rnd b \<le> b + b / 2 ^ 53" "b - b / 2 ^ 53 \<le> rnd b" by simp_all
  show la: "a - a / 2 ^ 53 \<le> max (rnd a) (rnd b)" using a(2) by (simp add: le_max_iff_disj)
  show lb: "b - b / 2 ^ 53 \<le> max (rnd a) (rnd b)" using b(2) by (simp add: le_max_iff_disj)
  have ab: "a / 2 ^ 53 \<le> max a b / 2 ^ 53" "b / 2 ^ 53 \<le> max a b / 2 ^ 53"
    by (simp_all add: divide_right_mono)
  have "rnd a \<le> max a b + max a b / 2 ^ 53"
  proof -
    have "a \<le> max a b" by simp
    with a(1) ab(1) show ?thesis by linarith
  qed
  moreover have "rnd b \<le> max a b + max a b / 2 ^ 53"
  proof -
    have "b \<le> max a b" by simp
    with b(1) ab(2) show ?thesis by linarith
  qed
  ultimately have up: "max (rnd a) (rnd b) \<le> max a b + max a b / 2 ^ 53"
    by (simp only: max.bounded_iff)
  have lo: "max a b - max a b / 2 ^ 53 \<le> max (rnd a) (rnd b)"
  proof (cases "a \<le> b")
    case True
    then have "max a b = b" by simp
    with lb show ?thesis by simp
  next
    case False
    then have "max a b = a" by simp
    with la show ?thesis by simp
  qed
  from up lo show "\<bar>max (rnd a) (rnd b) - max a b\<bar> \<le> max a b / 2 ^ 53"
    by linarith
qed

lemma extent_bounds:
  assumes w: "0 < w" and W: "0 < W" and r: "W / w - (W / w) / 2 ^ 53 \<le> r"
  shows "\<bar>rnd (w * r) - w * r\<bar> \<le> w * r / 2 ^ 53"
    and "W - rnd (w * r) \<le> W / 2 ^ 52"
proof -
  have wr: "W - W / 2 ^ 53 \<le> w * r"
  proof -
    have "w * (W / w - (W / w) / 2 ^ 53) \<le> w * r"
      using r w by (simp only: mult_le_cancel_left_pos)
    moreover have "w * (W / w - (W / w) / 2 ^ 53) = W - W / 2 ^ 53"
      using w by (simp add: right_diff_distrib)
    ultimately show ?thesis by simp
  qed
  have "W / 2 ^ 53 < W / 1" using W by (intro divide_strict_left_mono) simp_all
  then have "0 < W - W / 2 ^ 53" by simp
  with wr have pos: "0 < w * r" by linarith
  from rnd_error_pos[OF pos] show e: "\<bar>rnd (w * r) - w * r\<bar> \<le> w * r / 2 ^ 53" .
  from abs_boundsD[OF e] have "w * r - w * r / 2 ^ 53 \<le> rnd (w * r)" by simp
  moreover from shrink_mono[OF wr]
  have "(W - W / 2 ^ 53) - (W - W / 2 ^ 53) / 2 ^ 53 \<le> w * r - w * r / 2 ^ 53" .
  moreover have "(W - W / 2 ^ 53) - (W - W / 2 ^ 53) / 2 ^ 53 = W - W / 2 ^ 52 + W / 2 ^ 106"
    by (simp add: field_simps)
  moreover have "0 \<le> W / 2 ^ 106" using W by simp
  ultimately show "W - rnd (w * r) \<le> W / 2 ^ 52" by linarith
qed

lemma half_bounds: "\<bar>rnd (rnd a / 2) - a / 2\<bar> \<le> \<bar>a\<bar> / 2 ^ 52"
proof -
  define t where "t = rnd a"
  define c where "c = rnd (t / 2)"
  define E1 where "E1 = \<bar>a\<bar> / 2 ^ 53"
  define E2 where "E2 = (\<bar>a\<bar> + E1) / 2 ^ 53"
  define T where "T = \<bar>t\<bar> / 2 ^ 53"
  have t: "\<bar>t - a\<bar> \<le> E1" unfolding t_def E1_def by (rule rnd_error)
  then have ta: "\<bar>t\<bar> \<le> \<bar>a\<bar> + E1" by linarith
  have TE: "T \<le> E2" unfolding T_def E2_def using ta by (rule divide_right_mono) simp
  have "\<bar>c - t / 2\<bar> \<le> \<bar>t / 2\<bar> / 2 ^ 53" unfolding c_def by (rule rnd_error)
  also have "\<bar>t / 2\<bar> / 2 ^ 53 = T / 2" by (simp add: T_def)
  finally have c: "\<bar>c - t / 2\<bar> \<le> E2 / 2" using TE by linarith
  have "E2 / 2 + E1 / 2 = \<bar>a\<bar> / 2 ^ 53 + \<bar>a\<bar> / 2 ^ 107"
    by (simp add: E2_def E1_def field_simps)
  moreover have "\<bar>a\<bar> / 2 ^ 107 \<le> \<bar>a\<bar> / 2 ^ 53"
    by (intro divide_left_mono) simp_all
  moreover have "\<bar>a\<bar> / 2 ^ 53 + \<bar>a\<bar> / 2 ^ 53 = \<bar>a\<bar> / 2 ^ 52" by simp
  ultimately have e: "E2 / 2 + E1 / 2 \<le> \<bar>a\<bar> / 2 ^ 52" by linarith
  have "\<bar>(c - t / 2) + (t - a) / 2\<bar> \<le> \<bar>c - t / 2\<bar> + \<bar>(t - a) / 2\<bar>"
    by (rule abs_triangle_ineq)
  moreover have "(c - t / 2) + (t - a) / 2 = c - a / 2" by (simp add: field_simps)
  moreover have "\<bar>(t - a) / 2\<bar> = \<bar>t - a\<bar> / 2" by simp
  ultimately have "\<bar>c - a / 2\<bar> \<le> \<bar>c - t / 2\<bar> + \<bar>t - a\<bar> / 2" by simp
  with c t e have "\<bar>c - a / 2\<bar> \<le> \<bar>a\<bar> / 2 ^ 52" by linarith
  then show ?thesis by (simp add: c_def t_def)
qed

text \<open>
  Claim C6: a source image of size \<open>(w, h)\<close> drawn into a target rectangle of size
  \<open>(W, H)\<close> is drawn at extent \<open>(w * r, h * r)\<close> with \<open>r = max (W / w) (H / h)\<close>,
  offset by \<open>((W - w * r) / 2, (H - h * r) / 2)\<close> from the target origin, so that the
  target is always fully covered and the overflow cropped symmetrically. The code
  computes in doubles: a photo of 76 by 19 in the window of a frame is drawn from
  \<open>y = 60 + 1 / 2 ^ 44\<close> with the height \<open>1000 - 1 / 2 ^ 43\<close>, which leaves a strip at
  the top and at the bottom of the window uncovered, and the height is not \<open>h * r\<close>.
\<close>

theorem cover_fit_not_exact:
  "drawImageWithAspectRatio (Some \<lparr>img_src = ''a'', img_width = 76, img_height = 19\<rparr>)
     60 60 1000 1000 newCanvas
   = (Inr (), newCanvas\<lparr>cv_ops :=
        [(defaultState,
          DrawImage9 \<lparr>img_src = ''a'', img_width = 76, img_height = 19\<rparr> 0 0 76 19
            (- (6333186975989759 / 4398046511104)) (1055531162664961 / 17592186044416)
            (8796093022207999 / 2199023255552) (8796093022207999 / 8796093022208))]\<rparr>)
   \<and> \<not> (1055531162664961 / 17592186044416 \<le> (60::real))
   \<and> \<not> ((60::real) + 1000
          \<le> 1055531162664961 / 17592186044416 + 8796093022207999 / 8796093022208)
   \<and> (8796093022207999 / 8796093022208 :: real) \<noteq> 19 * max (1000 / 76) (1000 / 19)"
proof -
  have r: "max (rnd (1000 / 76)) (rnd (1000 / 19)) = 7407236229227789 / 140737488355328"
    by (simp add: rnd_def Let_def expo.simps roundEven_def)
  have ew: "rnd (76 * (7407236229227789 / 140737488355328)) = 8796093022207999 / 2199023255552"
    by (simp add: rnd_def Let_def expo.simps roundEven_def)
  have eh: "rnd (19 * (7407236229227789 / 140737488355328)) = 8796093022207999 / 8796093022208"
    by (simp add: rnd_def Let_def expo.simps roundEven_def)
  have x0: "rnd (60 + rnd (rnd (1000 - 8796093022207999 / 2199023255552) / 2))
              = - (6333186975989759 / 4398046511104)"
    by (simp add: rnd_def Let_def expo.simps roundEven_def)
  have y0: "rnd (60 + rnd (rnd (1000 - 8796093022207999 / 8796093022208) / 2))
              = 1055531162664961 / 17592186044416"
    by (simp add: rnd_def Let_def expo.simps roundEven_def)
  have draw: "drawImageWithAspectRatio (Some \<lparr>img_src = ''a'', img_width = 76, img_height = 19\<rparr>)
     60 60 1000 1000 newCanvas
   = (Inr (), newCanvas\<lparr>cv_ops :=
        [(defaultState,
          DrawImage9 \<lparr>img_src = ''a'', img_width = 76, img_height = 19\<rparr> 0 0 76 19
            (- (6333186975989759 / 4398046511104)) (1055531162664961 / 17592186044416)
            (8796093022207999 / 2199023255552) (8796093022207999 / 8796093022208))]\<rparr>)"
    unfolding drawImageWithAspectRatio_def Let_def option.case image.simps r ew eh x0 y0
    by (simp add: ok_def emit_def newCanvas_def)
  have top: "\<not> (1055531162664961 / 17592186044416 \<le> (60::real))" by simp
  have bottom: "\<not> ((60::real) + 1000
          \<le> 1055531162664961 / 17592186044416 + 8796093022207999 / 8796093022208)" by simp
  have extent: "(8796093022207999 / 8796093022208 :: real) \<noteq> 19 * max (1000 / 76) (1000 / 19)"
    by simp
  from draw top bottom extent show ?thesis by (intro conjI)
qed

text \<open>
  Claim C6, amended. For sizes \<open>w\<close>, \<open>h\<close>, \<open>W\<close>, \<open>H\<close> between \<open>2 powi (-200)\<close> and
  \<open>2 ^ 200\<close> and a target origin of size at most \<open>2 ^ 200\<close>, the routine makes one
  \<^verbatim>\<open>drawImage\<close> call whose arguments are the documented ones with every operation
  rounded to the nearest double: the ratio is \<open>r = max (rnd (W / w)) (rnd (H / h))\<close>,
  within the relative error \<open>1 / 2 ^ 53\<close> of \<open>max (W / w) (H / h)\<close>; the extent is
  \<open>(rnd (w * r), rnd (h * r))\<close>, within \<open>1 / 2 ^ 53\<close> of \<open>(w * r, h * r)\<close>, and short of
  the target by at most \<open>W / 2 ^ 52\<close> and \<open>H / 2 ^ 52\<close>; the offsets from the target
  origin are the rounded halves of the rounded differences \<open>W - ew\<close> and \<open>H - eh\<close>,
  within \<open>1 / 2 ^ 52\<close> of half the overflow, and their sums with the origin are rounded
  once more. The target is covered and the crop symmetric up to these rounding errors.
\<close>

theorem cover_fit_rounded:
  assumes w: "moderate (img_width im)" and h: "moderate (img_height im)"
    and W: "moderate W" and H: "moderate H"
    and dx: "\<bar>dx\<bar> \<le> 2 ^ 200" and dy: "\<bar>dy\<bar> \<le> 2 ^ 200"
  shows "let w = img_width im; h = img_height im;
             r = max (rnd (W / w)) (rnd (H / h));
             ew = rnd (w * r); eh = rnd (h * r);
             csx = rnd (rnd (W - ew) / 2); csy = rnd (rnd (H - eh) / 2);
             x0 = rnd (dx + csx); y0 = rnd (dy + csy)
         in drawImageWithAspectRatio (Some im) dx dy W H cv =
              (Inr (), cv\<lparr>cv_ops := cv_ops cv @
                 [(cv_state cv, DrawImage9 im 0 0 w h x0 y0 ew eh)]\<rparr>)
          \<and> \<bar>r - max (W / w) (H / h)\<bar> \<le> max (W / w) (H / h) / 2 ^ 53
          \<and> \<bar>ew - w * r\<bar> \<le> w * r / 2 ^ 53 \<and> \<bar>eh - h * r\<bar> \<le> h * r / 2 ^ 53
          \<and> W - ew \<le> W / 2 ^ 52 \<and> H - eh \<le> H / 2 ^ 52
          \<and> \<bar>csx - (W - ew) / 2\<bar> \<le> \<bar>W - ew\<bar> / 2 ^ 52
          \<and> \<bar>csy - (H - eh) / 2\<bar> \<le> \<bar>H - eh\<bar> / 2 ^ 52
          \<and> \<bar>x0 - (dx + csx)\<bar> \<le> \<bar>dx + csx\<bar> / 2 ^ 53
          \<and> \<bar>y0 - (dy + csy)\<bar> \<le> \<bar>dy + csy\<bar> / 2 ^ 53"
proof -
  define w where "w = img_width im"
  define h where "h = img_height im"
  define r where "r = max (rnd (W / w)) (rnd (H / h))"
  have wpos: "0 < w" and hpos: "0 < h"
    using moderate_pos[OF w] moderate_pos[OF h] by (simp_all add: w_def h_def)
  have Wpos: "0 < W" and Hpos: "0 < H"
    using moderate_pos[OF W] moderate_pos[OF H] by simp_all
  have a: "0 < W / w" and b: "0 < H / h" using Wpos Hpos wpos hpos by simp_all
  note rb = ratio_bounds[OF a b, folded r_def]
  note xb = extent_bounds[OF wpos Wpos rb(2)]
  note yb = extent_bounds[OF hpos Hpos rb(3)]
  have draw: "drawImageWithAspectRatio (Some im) dx dy W H cv =
              (Inr (), cv\<lparr>cv_ops := cv_ops cv @
                 [(cv_state cv, DrawImage9 im 0 0 w h
                     (rnd (dx + rnd (rnd (W - rnd (w * r)) / 2)))
                     (rnd (dy + rnd (rnd (H - rnd (h * r)) / 2)))
                     (rnd (w * r)) (rnd (h * r)))]\<rparr>)"
    by (simp add: drawImageWithAspectRatio_def ok_def emit_def Let_def w_def h_def r_def)
  show ?thesis
    unfolding Let_def w_def[symmetric] h_def[symmetric] r_def[symmetric]
    by (intro conjI draw rb(1) xb yb half_bounds rnd_error)
qed

text \<open>
  A photo of 400 by 300 in the window of a frame: the width \<open>4000 / 3\<close> and the offset
  \<open>- 320 / 3\<close> of exact arithmetic are rounded, the height is exact.
\<close>

theorem cover_fit_rounded_witness:
  "moderate 400 \<and> moderate 300 \<and> moderate 1000 \<and> \<bar>60::real\<bar> \<le> 2 ^ 200
   \<and> drawImageWithAspectRatio (Some \<lparr>img_src = ''a'', img_width = 400, img_height = 300\<rparr>)
        60 60 1000 1000 newCanvas
      = (Inr (), newCanvas\<lparr>cv_ops := cv_ops newCanvas @
           [(cv_state newCanvas,
             DrawImage9 \<lparr>img_src = ''a'', img_width = 400, img_height = 300\<rparr> 0 0 400 300
               (- (469124961184427 / 4398046511104)) 60
               (2932031007402667 / 2199023255552) 1000)]\<rparr>)
   \<and> (1000::real) - 2932031007402667 / 2199023255552 \<le> 1000 / 2 ^ 52
   \<and> (1000::real) - 1000 \<le> 1000 / 2 ^ 52"
proof -
  let ?im = "\<lparr>img_src = ''a'', img_width = 400, img_height = 300\<rparr>"
  have m: "moderate 400" "moderate 300" "moderate 1000" by (simp_all add: moderate_def)
  have w: "moderate (img_width ?im)" and h: "moderate (img_height ?im)" using m by simp_all
  have W: "moderate 1000" by (rule m(3))
  have d: "\<bar>60::real\<bar> \<le> 2 ^ 200" by simp
  have r: "max (rnd (1000 / 400)) (rnd (1000 / 300)) = 7505999378950827 / 2251799813685248"
    by (simp add: rnd_def Let_def expo.simps roundEven_def)
  have ew: "rnd (400 * (7505999378950827 / 2251799813685248)) = 2932031007402667 / 2199023255552"
    by (simp add: rnd_def Let_def expo.simps roundEven_def)
  have eh: "rnd (300 * (7505999378950827 / 2251799813685248)) = 1000"
    by (simp add: rnd_def Let_def expo.simps roundEven_def)
  have x0: "rnd (60 + rnd (rnd (1000 - 2932031007402667 / 2199023255552) / 2))
              = - (469124961184427 / 4398046511104)"
    by (simp add: rnd_def Let_def expo.simps roundEven_def)
  have y0: "rnd (60 + rnd (rnd (1000 - 1000) / 2)) = 60"
    by (simp add: rnd_def Let_def expo.simps roundEven_def)
  note th = cover_fit_rounded[OF w h W W d d, of newCanvas,
              unfolded Let_def image.simps r ew eh x0 y0]
  note draw = th[THEN conjunct1]
  note wide = th[THEN conjunct2, THEN conjunct2, THEN conjunct2, THEN conjunct2, THEN conjunct1]
  note high = th[THEN conjunct2, THEN conjunct2, THEN conjunct2, THEN conjunct2, THEN conjunct2,
                 THEN conjunct1]
  from m d draw wide high show ?thesis by (intro conjI)
qed

end
